theory Spec2Isabelle
  imports Complex_Main
begin

section \<open>JavaScript values used by the component\<close>

text \<open>
  The component is the single-file Vue application of the image converter
  (\<^verbatim>\<open>src/unnamed/part_000\<close>; \<^verbatim>\<open>src/src/App.vue\<close> is an earlier revision
  with the same extension, packaging and edit code and no animation path).
  Strings are \<^typ>\<open>string\<close>. A JavaScript number is a double, and the model keeps
  its value: counts and sizes are \<^typ>\<open>int\<close> or \<^typ>\<open>nat\<close>, what a numeric field holds
  is a \<^typ>\<open>rat\<close>. A product or quotient of doubles is rounded, and how is the engine's:
  the quotient and the products that give the scaled sizes of \<^verbatim>\<open>applyEdits\<close> are
  parameters of the model (\<open>numDivide\<close>, \<open>numTimes\<close> below). The tenth of the frame
  delay is written with the exact division: for an integer delay below \<open>2 ^ 50\<close> in
  magnitude the exact quotient and the double round to the same integer. The progress
  percentage, which only the progress bar reads, is written with the exact operations.
\<close>

text \<open>\<^verbatim>\<open>String.prototype.startsWith\<close>.\<close>

definition startsWith :: "string \<Rightarrow> string \<Rightarrow> bool" where
  "startsWith s p = (take (length p) s = p)"

text \<open>\<^verbatim>\<open>String.prototype.includes\<close>: \<open>p\<close> occurs in \<open>s\<close> as a contiguous block.\<close>

fun str_includes :: "string \<Rightarrow> string \<Rightarrow> bool" where
  "str_includes [] p = (p = [])"
| "str_includes (c # cs) p = (startsWith (c # cs) p \<or> str_includes cs p)"

text \<open>\<^verbatim>\<open>String.prototype.toLowerCase\<close> on the ASCII range (the catalog keys are ASCII).\<close>

definition lowerChar :: "char \<Rightarrow> char" where
  "lowerChar c =
     (case map_of (zip ''ABCDEFGHIJKLMNOPQRSTUVWXYZ'' ''abcdefghijklmnopqrstuvwxyz'') c of
        Some l \<Rightarrow> l
      | None \<Rightarrow> c)"

definition toLowerCase :: "string \<Rightarrow> string" where
  "toLowerCase s = map lowerChar s"

text \<open>\<^verbatim>\<open>Array.prototype.join\<close>.\<close>

fun join :: "string \<Rightarrow> string list \<Rightarrow> string" where
  "join sep [] = []"
| "join sep [x] = x"
| "join sep (x # y # ys) = x @ sep @ join sep (y # ys)"

text \<open>A non-negative integer in a template literal: its decimal digits.\<close>

definition digitChar :: "nat \<Rightarrow> char" where
  "digitChar d = ''0123456789'' ! d"

fun showNat :: "nat \<Rightarrow> string" where
  "showNat n = (if n < 10 then [digitChar n] else showNat (n div 10) @ [digitChar (n mod 10)])"

declare showNat.simps [simp del]

text \<open>An integer in a template literal.\<close>

definition showInt :: "int \<Rightarrow> string" where
  "showInt i = (if i < 0 then CHR ''-'' # showNat (nat (- i)) else showNat (nat i))"

text \<open>
  \<^verbatim>\<open>Math.round\<close>: the nearest integer, a tie going up.
\<close>

definition Math_round :: "rat \<Rightarrow> int" where
  "Math_round x = \<lfloor>x + 1 / 2\<rfloor>"

text \<open>
  Truthiness of a numeric field bound to an \<^verbatim>\<open><input type="number">\<close>: \<^verbatim>\<open>null\<close>
  (or the cleared field) and \<^verbatim>\<open>0\<close> are falsy, every other number is truthy.
\<close>

fun truthy :: "rat option \<Rightarrow> bool" where
  "truthy None = False"
| "truthy (Some q) = (q \<noteq> 0)"

text \<open>A number cut at its decimal point: rounded toward zero.\<close>

definition truncate0 :: "rat \<Rightarrow> int" where
  "truncate0 q = (if q < 0 then - \<lfloor>- q\<rfloor> else \<lfloor>q\<rfloor>)"

section \<open>The format catalog\<close>

text \<open>
  \<^verbatim>\<open>MagickFormat\<close> is the enumeration of the image library; the component names
  eleven of its members, and \<open>OtherFormat\<close> stands for any other member, by its name.
\<close>

datatype MagickFormat =
  Png | Jpeg | Gif | Ico | WebP | Pdf | Bmp | Tiff | Tga | Avif | Dds
  | OtherFormat string

definition quickFormats :: "(string \<times> MagickFormat) list" where
  "quickFormats =
     [(''PNG'', Png), (''JPG'', Jpeg), (''GIF'', Gif), (''ICO'', Ico),
      (''WEBP'', WebP), (''PDF'', Pdf)]"

definition extraFormats :: "(string \<times> MagickFormat) list" where
  "extraFormats =
     [(''BMP'', Bmp), (''TIFF'', Tiff), (''TGA'', Tga), (''AVIF'', Avif), (''DDS'', Dds)]"

text \<open>
  \<^verbatim>\<open>Object.keys(table).find(key => table[key] === format)\<close>: the first key, in
  insertion order, whose value is the format.
\<close>

fun findKey :: "(string \<times> MagickFormat) list \<Rightarrow> MagickFormat \<Rightarrow> string option" where
  "findKey [] f = None"
| "findKey ((k, v) # kvs) f = (if v = f then Some k else findKey kvs f)"

text \<open>
  The extension computed at the head of \<^verbatim>\<open>convertAndDownload\<close> (lines 180-185);
  an empty key is falsy.
\<close>

definition resolveExtension :: "MagickFormat \<Rightarrow> string" where
  "resolveExtension f =
     (let ext0 = ''dat'';
          ext1 = (case findKey quickFormats f of
                    Some k \<Rightarrow> if k \<noteq> [] then toLowerCase k else ext0
                  | None \<Rightarrow> ext0);
          ext2 = (case findKey extraFormats f of
                    Some k \<Rightarrow> if k \<noteq> [] then toLowerCase k else ext1
                  | None \<Rightarrow> ext1)
      in if ext2 = ''jpeg'' then ''jpg'' else ext2)"

definition isMultiFrameFormat :: "MagickFormat \<Rightarrow> bool" where
  "isMultiFrameFormat f = (f \<in> set [Gif, WebP, Pdf, Tiff])"

section \<open>Files, images and the libraries\<close>

type_synonym bytes = "nat list"

text \<open>A browser \<^verbatim>\<open>File\<close>: its name and its declared mime type.\<close>

record File =
  file_name :: string
  file_type :: string

text \<open>An entry of \<^verbatim>\<open>files\<close>: \<^verbatim>\<open>{ file, id, preview, renderError }\<close>.\<close>

record FileItem =
  item_file :: File
  item_id :: string
  item_preview :: string
  renderError :: bool

datatype ResizeMode = ModeNone | ModePercent | ModePixels

record MagickGeometry =
  geomWidth :: int
  geomHeight :: int
  ignoreAspectRatio :: bool

datatype MagickColor = MagickColor int int int int

text \<open>
  The methods the component calls on an image. The image library is external, so an
  image is what was read and what has been done to it since: the calls made, in order,
  and the properties written. What the library answers (sizes, failures, encodings) is
  a parameter of the model, a function of that history.
\<close>

datatype Call =
  Rotate int
  | Resize rat rat
  | ResizeGeometry MagickGeometry
  | Extent int int nat

record MagickImage =
  imgSource :: bytes
  imgFrame :: nat
  imgCalls :: "Call list"
  backgroundColor :: "MagickColor option"
  frameAnimationDelay :: "int option"
  gifDisposeMethod :: "nat option"
  imgFormat :: "MagickFormat option"
  imgQuality :: "int option"

text \<open>
  A \<^verbatim>\<open>MagickImageCollection\<close> is the list of its frames. Its methods
  \<^verbatim>\<open>coalesce\<close> and \<^verbatim>\<open>optimize\<close> replace the frames by frames the library computes.
\<close>

type_synonym MagickImageCollection = "MagickImage list"

text \<open>
  A \<^verbatim>\<open>Blob\<close> is the bytes the library produced, kept symbolic: the encoding of an
  image or of a collection in a format (with the blob's type), or the archive generated
  from named entries.
\<close>

datatype Blob =
  EncodedImage MagickFormat MagickImage string
  | EncodedCollection MagickFormat MagickImageCollection string
  | ZipArchive "(string \<times> Blob) list"

text \<open>
  The environment: the file reader, the image library, the archiver, the browser and
  the arithmetic of the JavaScript engine. A \<open>Throws\<close> field gives the message of the
  error a call raises, if it raises one. \<open>coalesce\<close> and \<open>optimize\<close> give the frames
  that the collection holds after the call, or the error raised. \<open>numDivide\<close> and
  \<open>numTimes\<close> are the quotient and the product of two doubles. \<open>leadingInteger\<close> is
  the integer at the start of the decimal string of a number that is not printed
  digit for digit (see \<open>parseInt\<close> below).
\<close>

record Env =
  arrayBuffer :: "File \<Rightarrow> string + bytes"
  readThrows :: "bytes \<Rightarrow> string option"
  collectionRead :: "bytes \<Rightarrow> string + nat"
  coalesce :: "MagickImageCollection \<Rightarrow> string + MagickImageCollection"
  callThrows :: "MagickImage \<Rightarrow> Call \<Rightarrow> string option"
  widthOf :: "MagickImage \<Rightarrow> int"
  heightOf :: "MagickImage \<Rightarrow> int"
  optimize :: "MagickImageCollection \<Rightarrow> string + MagickImageCollection"
  writeImageThrows :: "MagickFormat \<Rightarrow> MagickImage \<Rightarrow> string option"
  writeCollectionThrows :: "MagickFormat \<Rightarrow> MagickImageCollection \<Rightarrow> string option"
  generateAsync :: "(string \<times> Blob) list \<Rightarrow> rat list \<times> string option"
  formatValue :: "MagickFormat \<Rightarrow> string"
  randomId :: "File \<Rightarrow> string"
  createObjectURL :: "File \<Rightarrow> string"
  numDivide :: "rat \<Rightarrow> rat \<Rightarrow> rat"
  numTimes :: "rat \<Rightarrow> rat \<Rightarrow> rat"
  leadingInteger :: "rat \<Rightarrow> int"

text \<open>Sequencing of calls that may throw: the first error ends the sequence.\<close>

definition andThen :: "string + 'a \<Rightarrow> ('a \<Rightarrow> string + 'b) \<Rightarrow> string + 'b" where
  "andThen r k = (case r of Inl msg \<Rightarrow> Inl msg | Inr x \<Rightarrow> k x)"

definition unlessThrown :: "string option \<Rightarrow> 'a \<Rightarrow> string + 'a" where
  "unlessThrown t x = (case t of Some msg \<Rightarrow> Inl msg | None \<Rightarrow> Inr x)"

definition createImage :: "bytes \<Rightarrow> nat \<Rightarrow> MagickImage" where
  "createImage b k =
     \<lparr>imgSource = b, imgFrame = k, imgCalls = [], backgroundColor = None,
      frameAnimationDelay = None, gifDisposeMethod = None, imgFormat = None,
      imgQuality = None\<rparr>"

definition invoke :: "Env \<Rightarrow> MagickImage \<Rightarrow> Call \<Rightarrow> string + MagickImage" where
  "invoke env img c =
     unlessThrown (callThrows env img c) (img\<lparr>imgCalls := imgCalls img @ [c]\<rparr>)"

text \<open>
  \<^verbatim>\<open>parseInt\<close> of a numeric field. \<^verbatim>\<open>parseInt\<close> turns the number into its decimal
  string and reads the integer the string starts with. A number of magnitude at least
  one millionth and below \<open>2 ^ 53\<close> is printed digit for digit, so what is read is the
  number cut at its decimal point. Any other number is printed in exponent notation
  (from \<open>10 ^ 21\<close> on and below one millionth: \<^verbatim>\<open>parseInt(1e21)\<close> is \<open>1\<close>) or with its
  last digits rounded away, and what is read is the environment's \<open>leadingInteger\<close>.
  The component calls \<^verbatim>\<open>parseInt\<close> on a field only where the field is truthy; the
  value at \<open>None\<close> and at zero is never read.
\<close>

definition parseInt :: "Env \<Rightarrow> rat option \<Rightarrow> int" where
  "parseInt env v =
     (case v of
        None \<Rightarrow> 0
      | Some q \<Rightarrow>
          if q = 0 then 0
          else if 1 / 10 ^ 6 \<le> \<bar>q\<bar> \<and> \<bar>q\<bar> < 2 ^ 53 then truncate0 q
          else leadingInteger env q)"

definition GRAVITY_CENTER :: nat where
  "GRAVITY_CENTER = 5"

section \<open>The reactive state\<close>

record State =
  isReady :: bool
  processing :: bool
  progress :: rat
  progressLabel :: string
  files :: "FileItem list"
  targetFormat :: MagickFormat
  zipOutput :: bool
  errorMessage :: string
  isDragging :: bool
  makeAnimation :: bool
  animationDelay :: int
  resizeMode :: ResizeMode
  resizePercent :: int
  resizeWidth :: "rat option"
  resizeHeight :: "rat option"
  lockRatio :: bool
  rotation :: int
  quality :: int
  showMoreDropdown :: bool

definition initialState :: State where
  "initialState =
     \<lparr>isReady = False, processing = False, progress = 0, progressLabel = [],
      files = [], targetFormat = Png, zipOutput = False, errorMessage = [],
      isDragging = False, makeAnimation = False, animationDelay = 200,
      resizeMode = ModeNone, resizePercent = 50, resizeWidth = None,
      resizeHeight = None, lockRatio = True, rotation = 0, quality = 90,
      showMoreDropdown = False\<rparr>"

definition canMergeAnimation :: "State \<Rightarrow> bool" where
  "canMergeAnimation s =
     (if length (files s) < 2 then False else targetFormat s \<in> set [Gif, WebP])"

section \<open>Edits\<close>

definition applyEdits :: "Env \<Rightarrow> State \<Rightarrow> MagickImage \<Rightarrow> string + MagickImage" where
  "applyEdits env s img =
     andThen (if rotation s \<noteq> 0 then invoke env img (Rotate (rotation s)) else Inr img)
       (\<lambda>img1.
          if resizeMode s = ModePercent then
            (let p = numDivide env (of_int (resizePercent s)) 100
             in invoke env img1
                  (Resize (numTimes env (of_int (widthOf env img1)) p)
                          (numTimes env (of_int (heightOf env img1)) p)))
          else if resizeMode s = ModePixels then
            (let w = (if truthy (resizeWidth s) then parseInt env (resizeWidth s)
                      else widthOf env img1);
                 h = (if truthy (resizeHeight s) then parseInt env (resizeHeight s)
                      else heightOf env img1)
             in if lockRatio s then invoke env img1 (Resize (of_int w) (of_int h))
                else invoke env img1
                       (ResizeGeometry
                          \<lparr>geomWidth = w, geomHeight = h, ignoreAspectRatio = True\<rparr>))
          else Inr img1)"

section \<open>The single-file pipeline\<close>

text \<open>
  The loop of \<^verbatim>\<open>processSingleImage\<close> over the frames of the collection: edit the
  frame, then write its format and quality.
\<close>

fun editFrames :: "Env \<Rightarrow> State \<Rightarrow> MagickImage list \<Rightarrow> string + MagickImage list" where
  "editFrames env s [] = Inr []"
| "editFrames env s (img # rest) =
     andThen (applyEdits env s img)
       (\<lambda>img1. andThen
          (editFrames env s rest)
          (\<lambda>rest1. Inr (img1\<lparr>imgFormat := Some (targetFormat s),
                                 imgQuality := Some (quality s)\<rparr> # rest1)))"

definition blobType :: "Env \<Rightarrow> State \<Rightarrow> string" where
  "blobType env s = ''image/'' @ formatValue env (targetFormat s)"

text \<open>
  \<^verbatim>\<open>processSingleImage\<close>: an error inside the promise rejects it; the awaiting
  caller sees the rejection as a thrown error. Reading \<^verbatim>\<open>collection[0]\<close> of an empty
  collection gives \<^verbatim>\<open>undefined\<close>, and calling \<^verbatim>\<open>write\<close> on it is a type error.
\<close>

definition processSingleImage :: "Env \<Rightarrow> State \<Rightarrow> File \<Rightarrow> string + Blob" where
  "processSingleImage env s f =
     andThen (arrayBuffer env f)
       (\<lambda>b. andThen (collectionRead env b)
       (\<lambda>n. andThen
          (coalesce env (map (createImage b) [0..<n]))
       (\<lambda>decoded. andThen (editFrames env s decoded)
       (\<lambda>edited.
          if isMultiFrameFormat (targetFormat s) then
            andThen
              (if targetFormat s = Gif then optimize env edited else Inr edited)
              (\<lambda>coll. unlessThrown (writeCollectionThrows env (targetFormat s) coll)
                        (EncodedCollection (targetFormat s) coll (blobType env s)))
          else
            (case edited of
               [] \<Rightarrow> Inl ''firstFrame is undefined''
             | firstFrame # _ \<Rightarrow>
                 unlessThrown (writeImageThrows env (targetFormat s) firstFrame)
                   (EncodedImage (targetFormat s) firstFrame (blobType env s)))))))"

section \<open>The animation-merge pipeline\<close>

text \<open>The condition under which a frame's canvas is extended (line 297).\<close>

definition padsCanvas :: "State \<Rightarrow> bool" where
  "padsCanvas s =
     (targetFormat s = Gif \<and> resizeMode s = ModePixels \<and> truthy (resizeWidth s)
      \<and> truthy (resizeHeight s) \<and> lockRatio s)"

text \<open>The body of the loop of \<^verbatim>\<open>processMergeAnimation\<close>, for one file.\<close>

definition mergeFrame :: "Env \<Rightarrow> State \<Rightarrow> File \<Rightarrow> string + MagickImage" where
  "mergeFrame env s f =
     andThen (arrayBuffer env f)
       (\<lambda>b. andThen (unlessThrown (readThrows env b) (createImage b 0))
       (\<lambda>img. andThen (applyEdits env s img)
       (\<lambda>img1. andThen
          (if padsCanvas s then
             (let w = parseInt env (resizeWidth s); h = parseInt env (resizeHeight s)
              in invoke env (img1\<lparr>backgroundColor := Some (MagickColor 0 0 0 0)\<rparr>)
                   (Extent w h GRAVITY_CENTER))
           else Inr img1)
       (\<lambda>img2.
          let img3 = img2\<lparr>frameAnimationDelay :=
                            Some (Math_round (of_int (animationDelay s) / 10))\<rparr>
          in Inr (if targetFormat s = Gif then img3\<lparr>gifDisposeMethod := Some 2\<rparr>
                  else img3)))))"

fun mergeLoop ::
  "Env \<Rightarrow> nat \<Rightarrow> FileItem list \<Rightarrow> State \<Rightarrow> MagickImage list
   \<Rightarrow> State \<times> (string + MagickImage list)" where
  "mergeLoop env i [] s acc = (s, Inr acc)"
| "mergeLoop env i (item # rest) s acc =
     (let s1 = s\<lparr>progressLabel :=
                    ''Adding frame '' @ showNat (i + 1) @ ''/'' @ showNat (length (files s)),
                  progress := of_nat i / of_nat (length (files s)) * 80\<rparr>
      in case mergeFrame env s1 (item_file item) of
           Inl msg \<Rightarrow> (s1, Inl msg)
         | Inr img \<Rightarrow> mergeLoop env (Suc i) rest s1 (acc @ [img]))"

definition processMergeAnimation :: "Env \<Rightarrow> State \<Rightarrow> State \<times> (string + Blob)" where
  "processMergeAnimation env s =
     (case mergeLoop env 0 (files s) s [] of
        (s1, Inl msg) \<Rightarrow> (s1, Inl msg)
      | (s1, Inr pushed) \<Rightarrow>
          (s1\<lparr>progressLabel := ''Rendering Animation...''\<rparr>,
           andThen
             (if targetFormat s1 = Gif then optimize env pushed else Inr pushed)
             (\<lambda>coll. unlessThrown (writeCollectionThrows env (targetFormat s1) coll)
                       (EncodedCollection (targetFormat s1) coll (blobType env s1)))))"

section \<open>The run\<close>

text \<open>
  \<^verbatim>\<open>name.replace(/\.[^/.]+$/, "")\<close>: a final dot followed by one or more characters,
  none of them a dot or a slash, is removed with what follows it.
\<close>

definition stripExtension :: "string \<Rightarrow> string" where
  "stripExtension n =
     (let t = takeWhile (\<lambda>c. c \<noteq> CHR ''.'' \<and> c \<noteq> CHR ''/'') (rev n)
      in case drop (length t) (rev n) of
           [] \<Rightarrow> n
         | c # before \<Rightarrow> if c = CHR ''.'' \<and> t \<noteq> [] then rev before else n)"

text \<open>\<^verbatim>\<open>zip.file(name, blob)\<close>: an entry of that name is replaced, a new name is added.\<close>

fun zipFile :: "(string \<times> Blob) list \<Rightarrow> string \<Rightarrow> Blob \<Rightarrow> (string \<times> Blob) list" where
  "zipFile [] n b = [(n, b)]"
| "zipFile ((k, v) # es) n b = (if k = n then (n, b) # es else (k, v) # zipFile es n b)"

text \<open>The per-file loop of \<^verbatim>\<open>convertAndDownload\<close> (lines 198-207).\<close>

fun convertLoop ::
  "Env \<Rightarrow> string \<Rightarrow> nat \<Rightarrow> nat \<Rightarrow> FileItem list \<Rightarrow> State \<Rightarrow> (string \<times> Blob) list
   \<Rightarrow> State \<times> (string + (string \<times> Blob) list)" where
  "convertLoop env ext totalFiles i [] s processedFiles = (s, Inr processedFiles)"
| "convertLoop env ext totalFiles i (item # rest) s processedFiles =
     (let s1 = s\<lparr>progressLabel := ''Processing '' @ file_name (item_file item) @ ''...''\<rparr>
      in case processSingleImage env s1 (item_file item) of
           Inl msg \<Rightarrow> (s1, Inl msg)
         | Inr convertedBlob \<Rightarrow>
             convertLoop env ext totalFiles (Suc i) rest
               (s1\<lparr>progress := of_nat (i + 1) / of_nat totalFiles * 90\<rparr>)
               (processedFiles
                @ [(stripExtension (file_name (item_file item)) @ ''.'' @ ext, convertedBlob)]))"

text \<open>
  The two branches of the \<^verbatim>\<open>try\<close> of \<^verbatim>\<open>convertAndDownload\<close>, each giving the
  state it leaves and either the message of the error thrown or its one call of
  \<^verbatim>\<open>triggerDownload\<close> (blob and file name): the animation branch (lines 188-191) and
  the per-file branch (lines 194-220).
\<close>

definition mergePath :: "Env \<Rightarrow> string \<Rightarrow> State \<Rightarrow> State \<times> (string + Blob \<times> string)" where
  "mergePath env ext s =
     (case processMergeAnimation env (s\<lparr>progressLabel := ''Merging Animation...''\<rparr>) of
        (s1, Inl msg) \<Rightarrow> (s1, Inl msg)
      | (s1, Inr blob) \<Rightarrow> (s1\<lparr>progress := 100\<rparr>, Inr (blob, ''animation.'' @ ext)))"

text \<open>
  The statements after the per-file loop (lines 209-220; lines 145-156 of
  \<^verbatim>\<open>src/src/App.vue\<close> are the same): an archive of all outputs, or the one output.
\<close>

definition package ::
  "Env \<Rightarrow> State \<Rightarrow> nat \<Rightarrow> (string \<times> Blob) list \<Rightarrow> State \<times> (string + Blob \<times> string)" where
  "package env s1 totalFiles processedFiles =
     (if zipOutput s1 \<or> totalFiles > 1 then
        (let entries = foldl (\<lambda>z f. zipFile z (fst f) (snd f)) [] processedFiles;
             s2 = foldl (\<lambda>st percent. st\<lparr>progress := 90 + percent * (1 / 10)\<rparr>)
                    (s1\<lparr>progressLabel := ''Compressing...''\<rparr>)
                    (fst (generateAsync env entries))
         in (s2, unlessThrown (snd (generateAsync env entries))
                   (ZipArchive entries, ''converted_images.zip'')))
      else
        (case processedFiles of
           [] \<Rightarrow> (s1\<lparr>progressLabel := ''Finalizing...'', progress := 100\<rparr>,
                   Inl ''processedFiles[0] is undefined'')
         | f # _ \<Rightarrow> (s1\<lparr>progressLabel := ''Finalizing...'', progress := 100\<rparr>,
                      Inr (snd f, fst f))))"

definition perFilePath :: "Env \<Rightarrow> string \<Rightarrow> State \<Rightarrow> State \<times> (string + Blob \<times> string)" where
  "perFilePath env ext s =
     (case convertLoop env ext (length (files s)) 0 (files s) s [] of
        (s1, Inl msg) \<Rightarrow> (s1, Inl msg)
      | (s1, Inr processedFiles) \<Rightarrow> package env s1 (length (files s)) processedFiles)"

text \<open>The body of the \<^verbatim>\<open>try\<close>: the extension, then the choice of the branch (line 187).\<close>

definition tryBlock :: "Env \<Rightarrow> State \<Rightarrow> State \<times> (string + Blob \<times> string)" where
  "tryBlock env s =
     (let ext = resolveExtension (targetFormat s)
      in if makeAnimation s \<and> canMergeAnimation s then mergePath env ext s
         else perFilePath env ext s)"

text \<open>The \<^verbatim>\<open>catch\<close> of \<^verbatim>\<open>convertAndDownload\<close>: the message shown for an error.\<close>

definition catchMessage :: "string \<Rightarrow> string" where
  "catchMessage msg =
     (if str_includes msg ''FailedToExecuteCommand'' \<or> str_includes msg ''ffmpeg'' then
        ''This format requires external libraries (ffmpeg) not available. Please use GIF or WebP.''
      else if str_includes msg ''ImagesAreNotTheSameSize'' then
        ''GIF Error: Frames mismatch. Please ensure 'Resize' width/height are set if locking ratio.''
      else ''Conversion failed. '' @ msg)"

text \<open>
  \<^verbatim>\<open>convertAndDownload\<close>: the state when the promise settles and the calls of
  \<^verbatim>\<open>triggerDownload\<close> made. With no file it returns at once.
\<close>

definition convertAndDownload :: "Env \<Rightarrow> State \<Rightarrow> State \<times> (Blob \<times> string) list" where
  "convertAndDownload env s =
     (if length (files s) = 0 then (s, [])
      else
        (case tryBlock env (s\<lparr>processing := True, progress := 0, errorMessage := []\<rparr>) of
           (s1, Inr download) \<Rightarrow> (s1, [download])
         | (s1, Inl msg) \<Rightarrow> (s1\<lparr>errorMessage := catchMessage msg\<rparr>, [])))"

text \<open>The timer set in the \<^verbatim>\<open>finally\<close>, when it fires.\<close>

definition finallyTimeout :: "State \<Rightarrow> State" where
  "finallyTimeout s = s\<lparr>processing := False, progress := 0, progressLabel := []\<rparr>"

section \<open>The earlier revision of the component\<close>

text \<open>
  \<^verbatim>\<open>src/src/App.vue\<close> has no animation: it reads one image per file, edits it inline
  (lines 177-197), and always runs the per-file loop. It uses the fields of the state
  it has in common with the later revision.
\<close>

definition inlineEdits_v1 :: "Env \<Rightarrow> State \<Rightarrow> MagickImage \<Rightarrow> string + MagickImage" where
  "inlineEdits_v1 env s img =
     andThen (if rotation s \<noteq> 0 then invoke env img (Rotate (rotation s)) else Inr img)
       (\<lambda>img1.
          if resizeMode s = ModePercent then
            (let p = numDivide env (of_int (resizePercent s)) 100
             in invoke env img1
                  (Resize (numTimes env (of_int (widthOf env img1)) p)
                          (numTimes env (of_int (heightOf env img1)) p)))
          else if resizeMode s = ModePixels then
            (let w = (if truthy (resizeWidth s) then parseInt env (resizeWidth s)
                      else widthOf env img1);
                 h = (if truthy (resizeHeight s) then parseInt env (resizeHeight s)
                      else heightOf env img1)
             in if lockRatio s then invoke env img1 (Resize (of_int w) (of_int h))
                else invoke env img1
                       (ResizeGeometry
                          \<lparr>geomWidth = w, geomHeight = h, ignoreAspectRatio = True\<rparr>))
          else Inr img1)"

definition processSingleImage_v1 :: "Env \<Rightarrow> State \<Rightarrow> File \<Rightarrow> string + Blob" where
  "processSingleImage_v1 env s f =
     andThen (arrayBuffer env f)
       (\<lambda>b. andThen (unlessThrown (readThrows env b) (createImage b 0))
       (\<lambda>img. andThen (inlineEdits_v1 env s img)
       (\<lambda>img1.
          let img2 = img1\<lparr>imgFormat := Some (targetFormat s), imgQuality := Some (quality s)\<rparr>
          in unlessThrown (writeImageThrows env (targetFormat s) img2)
               (EncodedImage (targetFormat s) img2 (blobType env s)))))"

fun convertLoop_v1 ::
  "Env \<Rightarrow> string \<Rightarrow> nat \<Rightarrow> nat \<Rightarrow> FileItem list \<Rightarrow> State \<Rightarrow> (string \<times> Blob) list
   \<Rightarrow> State \<times> (string + (string \<times> Blob) list)" where
  "convertLoop_v1 env ext totalFiles i [] s processedFiles = (s, Inr processedFiles)"
| "convertLoop_v1 env ext totalFiles i (item # rest) s processedFiles =
     (let s1 = s\<lparr>progressLabel := ''Converting '' @ file_name (item_file item) @ ''...''\<rparr>
      in case processSingleImage_v1 env s1 (item_file item) of
           Inl msg \<Rightarrow> (s1, Inl msg)
         | Inr convertedBlob \<Rightarrow>
             convertLoop_v1 env ext totalFiles (Suc i) rest
               (s1\<lparr>progress := of_nat (i + 1) / of_nat totalFiles * 90\<rparr>)
               (processedFiles
                @ [(stripExtension (file_name (item_file item)) @ ''.'' @ ext, convertedBlob)]))"

definition tryBlock_v1 :: "Env \<Rightarrow> State \<Rightarrow> State \<times> (string + Blob \<times> string)" where
  "tryBlock_v1 env s =
     (let ext = resolveExtension (targetFormat s)
      in case convertLoop_v1 env ext (length (files s)) 0 (files s) s [] of
           (s1, Inl msg) \<Rightarrow> (s1, Inl msg)
         | (s1, Inr processedFiles) \<Rightarrow> package env s1 (length (files s)) processedFiles)"

definition convertAndDownload_v1 :: "Env \<Rightarrow> State \<Rightarrow> State \<times> (Blob \<times> string) list" where
  "convertAndDownload_v1 env s =
     (if length (files s) = 0 then (s, [])
      else
        (case tryBlock_v1 env (s\<lparr>processing := True, progress := 0, errorMessage := []\<rparr>) of
           (s1, Inr download) \<Rightarrow> (s1, [download])
         | (s1, Inl msg) \<Rightarrow> (s1\<lparr>errorMessage := ''Conversion failed. '' @ msg\<rparr>, [])))"

section \<open>File selection, watchers and the events of the page\<close>

definition addFiles :: "Env \<Rightarrow> File list \<Rightarrow> State \<Rightarrow> State" where
  "addFiles env fileList s =
     (let validFiles = filter (\<lambda>f. startsWith (file_type f) ''image/'') fileList;
          rejectedNames =
            map file_name (filter (\<lambda>f. \<not> startsWith (file_type f) ''image/'') fileList);
          s1 = (if length rejectedNames > 0 then
                  (let displayNames = join '', '' (take 5 rejectedNames);
                       extraCount = int (length rejectedNames) - 5;
                       suffix = (if extraCount > 0
                                 then '', and '' @ showInt extraCount @ '' others.''
                                 else ''.'')
                   in s\<lparr>errorMessage :=
                          ''Skipped unsupported files: '' @ displayNames @ suffix\<rparr>)
                else s\<lparr>errorMessage := []\<rparr>);
          filesWithPreviews =
            map (\<lambda>f. \<lparr>item_file = f, item_id = randomId env f,
                       item_preview = createObjectURL env f, renderError = False\<rparr>)
              validFiles
      in s1\<lparr>files := files s1 @ filesWithPreviews\<rparr>)"

definition removeFile :: "string \<Rightarrow> State \<Rightarrow> State" where
  "removeFile i s = s\<lparr>files := filter (\<lambda>f. item_id f \<noteq> i) (files s)\<rparr>"

text \<open>The three watchers (lines 82-95): the callback run after a watched value changed.\<close>

definition watchTargetFormat :: "State \<Rightarrow> State" where
  "watchTargetFormat s = (if \<not> canMergeAnimation s then s\<lparr>makeAnimation := False\<rparr> else s)"

definition watchFilesLength :: "nat \<Rightarrow> State \<Rightarrow> State" where
  "watchFilesLength newCount s =
     (let s1 = (if newCount > 1 \<and> \<not> makeAnimation s then s\<lparr>zipOutput := True\<rparr> else s)
      in if newCount < 2 then s1\<lparr>makeAnimation := False\<rparr> else s1)"

definition watchResizeDims :: "rat option \<Rightarrow> rat option \<Rightarrow> State \<Rightarrow> State" where
  "watchResizeDims newW newH s =
     (if truthy newW \<and> truthy newH \<and> resizeMode s = ModePixels
      then s\<lparr>lockRatio := False\<rparr> else s)"

text \<open>
  A watcher runs when the value it watches has changed: \<open>afterChange\<close> compares the
  watched values of the state before and after a handler.
\<close>

definition afterChange :: "State \<Rightarrow> State \<Rightarrow> State" where
  "afterChange old s =
     (let s1 = (if targetFormat s \<noteq> targetFormat old then watchTargetFormat s else s);
          s2 = (if length (files s1) \<noteq> length (files old)
                then watchFilesLength (length (files s1)) s1 else s1)
      in if resizeWidth s2 \<noteq> resizeWidth old \<or> resizeHeight s2 \<noteq> resizeHeight old
         then watchResizeDims (resizeWidth s2) (resizeHeight s2) s2 else s2)"

text \<open>\<^verbatim>\<open>%\<close> of JavaScript: the remainder has the sign of the dividend.\<close>

definition jsRem :: "int \<Rightarrow> int \<Rightarrow> int" where
  "jsRem a b = sgn a * (\<bar>a\<bar> mod \<bar>b\<bar>)"

definition selectFormat :: "MagickFormat \<Rightarrow> State \<Rightarrow> State" where
  "selectFormat f s = s\<lparr>targetFormat := f, showMoreDropdown := False\<rparr>"

text \<open>
  What the user and the browser can do to the page: one event per run of a handler of
  the template, of a \<^verbatim>\<open>v-model\<close> assignment or of a timer (a click that also reaches
  the handler of the root element is that handler's event followed by \<open>CloseDropdown\<close>).
  A control that the template does not render in the current state (\<^verbatim>\<open>v-if\<close>) or
  renders disabled cannot be used.
\<close>

datatype Event =
  SelectQuickFormat MagickFormat
  | SelectExtraFormat MagickFormat
  | ChooseFiles "File list"
  | DropFiles "File list"
  | RemoveFile string
  | PreviewError nat
  | SetQuality int
  | SetMakeAnimation bool
  | SetAnimationDelay int
  | RotateLeft
  | RotateRight
  | SetResizeMode ResizeMode
  | SetResizePercent int
  | SetResizeWidth "rat option"
  | SetResizeHeight "rat option"
  | ToggleLockRatio
  | SetZipOutput bool
  | ClickConvert
  | TimerFired
  | EngineLoaded
  | EngineFailed string
  | ToggleDropdown
  | CloseDropdown
  | Dragging bool

fun enabled :: "Event \<Rightarrow> State \<Rightarrow> bool" where
  "enabled (SelectQuickFormat f) s = (f \<in> set (map snd quickFormats))"
| "enabled (SelectExtraFormat f) s = (showMoreDropdown s \<and> f \<in> set (map snd extraFormats))"
| "enabled (RemoveFile i) s = (i \<in> set (map item_id (files s)))"
| "enabled (PreviewError i) s = (i < length (files s))"
| "enabled (SetMakeAnimation b) s = canMergeAnimation s"
| "enabled (SetAnimationDelay d) s = (canMergeAnimation s \<and> makeAnimation s)"
| "enabled (SetResizePercent p) s = (resizeMode s = ModePercent)"
| "enabled (SetResizeWidth v) s = (resizeMode s = ModePixels)"
| "enabled (SetResizeHeight v) s = (resizeMode s = ModePixels)"
| "enabled ToggleLockRatio s = (resizeMode s = ModePixels)"
| "enabled (SetZipOutput b) s = (\<not> makeAnimation s)"
| "enabled ClickConvert s = (\<not> (\<not> isReady s \<or> length (files s) = 0 \<or> processing s))"
| "enabled e s = True"

fun handler :: "Env \<Rightarrow> Event \<Rightarrow> State \<Rightarrow> State" where
  "handler env (SelectQuickFormat f) s = s\<lparr>targetFormat := f\<rparr>"
| "handler env (SelectExtraFormat f) s = selectFormat f s"
| "handler env (ChooseFiles fs) s = addFiles env fs s"
| "handler env (DropFiles fs) s = addFiles env fs (s\<lparr>isDragging := False\<rparr>)"
| "handler env (RemoveFile i) s = removeFile i s"
| "handler env (PreviewError i) s =
     s\<lparr>files := (files s)[i := (files s ! i)\<lparr>renderError := True\<rparr>]\<rparr>"
| "handler env (SetQuality q) s = s\<lparr>quality := q\<rparr>"
| "handler env (SetMakeAnimation b) s = s\<lparr>makeAnimation := b\<rparr>"
| "handler env (SetAnimationDelay d) s = s\<lparr>animationDelay := d\<rparr>"
| "handler env RotateLeft s = s\<lparr>rotation := jsRem (rotation s - 90) 360\<rparr>"
| "handler env RotateRight s = s\<lparr>rotation := jsRem (rotation s + 90) 360\<rparr>"
| "handler env (SetResizeMode m) s = s\<lparr>resizeMode := m\<rparr>"
| "handler env (SetResizePercent p) s = s\<lparr>resizePercent := p\<rparr>"
| "handler env (SetResizeWidth v) s = s\<lparr>resizeWidth := v\<rparr>"
| "handler env (SetResizeHeight v) s = s\<lparr>resizeHeight := v\<rparr>"
| "handler env ToggleLockRatio s = s\<lparr>lockRatio := \<not> lockRatio s\<rparr>"
| "handler env (SetZipOutput b) s = s\<lparr>zipOutput := b\<rparr>"
| "handler env ClickConvert s = fst (convertAndDownload env s)"
| "handler env TimerFired s = finallyTimeout s"
| "handler env EngineLoaded s = s\<lparr>isReady := True\<rparr>"
| "handler env (EngineFailed msg) s = s\<lparr>errorMessage := ''Failed to load Magick: '' @ msg\<rparr>"
| "handler env ToggleDropdown s = s\<lparr>showMoreDropdown := \<not> showMoreDropdown s\<rparr>"
| "handler env CloseDropdown s = s\<lparr>showMoreDropdown := False\<rparr>"
| "handler env (Dragging b) s = s\<lparr>isDragging := b\<rparr>"

definition step :: "Env \<Rightarrow> Event \<Rightarrow> State \<Rightarrow> State" where
  "step env e s = (if enabled e s then afterChange s (handler env e s) else s)"

fun runEvents :: "Env \<Rightarrow> Event list \<Rightarrow> State \<Rightarrow> State" where
  "runEvents env [] s = s"
| "runEvents env (e # es) s = runEvents env es (step env e s)"

section \<open>The job of a run, the calls of the edits and the packaging\<close>

text \<open>
  The job of a run: the state without the fields a run writes (the progress, its label,
  the busy flag and the message). The pipelines read only the job.
\<close>

definition jobOf :: "State \<Rightarrow> State" where
  "jobOf s = s\<lparr>processing := False, progress := 0, progressLabel := [], errorMessage := []\<rparr>"



text \<open>Both sides of the box are given and the ratio is locked.\<close>

definition lockedBox :: "State \<Rightarrow> bool" where
  "lockedBox s = (truthy (resizeWidth s) \<and> truthy (resizeHeight s) \<and> lockRatio s)"

text \<open>
  The packaging the specification (section 4.5) describes, for a converter of one file
  and an extension: an archive exactly when the zip flag is set or there is more than
  one file; the archive is named \<open>converted_images.zip\<close> and made of the outputs of all
  files under their derived names; otherwise there is one file, delivered as converted
  under its derived name.
\<close>

definition packaged :: "string \<Rightarrow> (File \<Rightarrow> string + Blob) \<Rightarrow> State \<Rightarrow> Blob \<Rightarrow> string \<Rightarrow> bool" where
  "packaged ext convert s blob fname =
     (((\<exists>entries. blob = ZipArchive entries) \<longleftrightarrow> (zipOutput s \<or> 1 < length (files s)))
      \<and> (zipOutput s \<or> 1 < length (files s) \<longrightarrow>
            fname = ''converted_images.zip''
            \<and> (\<exists>outs. list_all2
                   (\<lambda>it f. fst f = stripExtension (file_name (item_file it)) @ ''.'' @ ext
                            \<and> convert (item_file it) = Inr (snd f))
                   (files s) outs
                 \<and> blob = ZipArchive (foldl (\<lambda>z f. zipFile z (fst f) (snd f)) [] outs)))
      \<and> (\<not> (zipOutput s \<or> 1 < length (files s)) \<longrightarrow>
            (\<exists>it. files s = [it]
               \<and> fname = stripExtension (file_name (item_file it)) @ ''.'' @ ext
               \<and> convert (item_file it) = Inr blob)))"

section \<open>Concrete inputs\<close>

text \<open>
  Files, and an environment in which nothing fails: every image is read as one frame of
  200 by 100 pixels, the bytes of a file are the codes of its name, and the library
  leaves the frames of a collection as they are. Its arithmetic is exact (on the numbers
  used below the exact results are doubles), and the integer at the start of a number
  in exponent notation is the number's first digit, with its sign (as for \<open>10 ^ 21\<close>,
  printed \<^verbatim>\<open>1e+21\<close>).
\<close>

fun firstDigit :: "nat \<Rightarrow> rat \<Rightarrow> int" where
  "firstDigit k q =
     (if k = 0 then 0
      else if 10 \<le> q then firstDigit (k - 1) (q / 10)
      else if q < 1 then firstDigit (k - 1) (q * 10)
      else \<lfloor>q\<rfloor>)"

declare firstDigit.simps [simp del]

definition exponentLead :: "rat \<Rightarrow> int" where
  "exponentLead q =
     (if 10 ^ 21 \<le> \<bar>q\<bar> \<or> \<bar>q\<bar> < 1 / 10 ^ 6
      then (if q < 0 then - firstDigit 400 (- q) else firstDigit 400 q)
      else truncate0 q)"

definition mkFile :: "string \<Rightarrow> string \<Rightarrow> File" where
  "mkFile n t = \<lparr>file_name = n, file_type = t\<rparr>"

definition mkItem :: "string \<Rightarrow> string \<Rightarrow> FileItem" where
  "mkItem n t =
     \<lparr>item_file = mkFile n t, item_id = n, item_preview = ''blob:'' @ n, renderError = False\<rparr>"

definition quietEnv :: Env where
  "quietEnv =
     \<lparr>arrayBuffer = (\<lambda>f. Inr (map of_char (file_name f))),
      readThrows = (\<lambda>b. None),
      collectionRead = (\<lambda>b. Inr 1),
      coalesce = (\<lambda>fs. Inr fs),
      callThrows = (\<lambda>img c. None),
      widthOf = (\<lambda>img. 200),
      heightOf = (\<lambda>img. 100),
      optimize = (\<lambda>fs. Inr fs),
      writeImageThrows = (\<lambda>f img. None),
      writeCollectionThrows = (\<lambda>f c. None),
      generateAsync = (\<lambda>es. ([100], None)),
      formatValue = (\<lambda>f. ''x''),
      randomId = file_name,
      createObjectURL = (\<lambda>f. ''blob:'' @ file_name f),
      numDivide = (\<lambda>a b. a / b),
      numTimes = (\<lambda>a b. a * b),
      leadingInteger = exponentLead\<rparr>"



definition eightFiles :: "File list" where
  "eightFiles =
     [mkFile ''a.txt'' ''text/plain'', mkFile ''b.pdf'' ''application/pdf'',
      mkFile ''photo.png'' ''image/png'', mkFile ''c.doc'' ''application/msword'',
      mkFile ''d.zip'' ''application/zip'', mkFile ''e.mp4'' ''video/mp4'',
      mkFile ''f.mp3'' ''audio/mpeg'', mkFile ''g'' []]"

definition threeFiles :: "FileItem list" where
  "threeFiles = [mkItem ''a.png'' ''image/png'', mkItem ''b.png'' ''image/png'',
                 mkItem ''c.png'' ''image/png'']"

definition gifMergeState :: State where
  "gifMergeState =
     initialState\<lparr>isReady := True, files := threeFiles, targetFormat := Gif,
                   makeAnimation := True\<rparr>"




definition failingEnv :: "string \<Rightarrow> string \<Rightarrow> Env" where
  "failingEnv n msg =
     quietEnv\<lparr>collectionRead := (\<lambda>b. if b = map of_char n then Inl msg else Inr 1)\<rparr>"

definition perFileState :: State where
  "perFileState = initialState\<lparr>isReady := True, files := threeFiles\<rparr>"

definition singleState :: State where
  "singleState =
     initialState\<lparr>isReady := True, files := [mkItem ''photo.old.png'' ''image/png''],
                   targetFormat := Jpeg\<rparr>"

definition lockEvents :: "Event list" where
  "lockEvents =
     [SetResizeMode ModePixels, SetResizeWidth (Some 100), SetResizeHeight (Some 50),
      ToggleLockRatio]"

text \<open>
  A run on one file whose decoding fails with a given message: what the body of the
  \<^verbatim>\<open>try\<close> throws, and the message the page shows.
\<close>

definition failureOf :: "string \<Rightarrow> string + Blob \<times> string" where
  "failureOf msg =
     snd (tryBlock (failingEnv ''photo.old.png'' msg)
            (singleState\<lparr>processing := True, progress := 0, errorMessage := []\<rparr>))"

definition shownFor :: "string \<Rightarrow> string" where
  "shownFor msg =
     errorMessage (fst (convertAndDownload (failingEnv ''photo.old.png'' msg) singleState))"

section \<open>Lemmas: a run reads the job and leaves it unchanged\<close>

lemma jobOf_update [simp]:
  "jobOf (s\<lparr>processing := b\<rparr>) = jobOf s"
  "jobOf (s\<lparr>progress := p\<rparr>) = jobOf s"
  "jobOf (s\<lparr>progressLabel := l\<rparr>) = jobOf s"
  "jobOf (s\<lparr>errorMessage := m\<rparr>) = jobOf s"
  by (simp_all add: jobOf_def)

lemma jobOf_eqD:
  assumes "jobOf a = jobOf b"
  shows "files a = files b" and "targetFormat a = targetFormat b"
    and "zipOutput a = zipOutput b" and "makeAnimation a = makeAnimation b"
    and "animationDelay a = animationDelay b" and "resizeMode a = resizeMode b"
    and "resizePercent a = resizePercent b" and "resizeWidth a = resizeWidth b"
    and "resizeHeight a = resizeHeight b" and "lockRatio a = lockRatio b"
    and "rotation a = rotation b" and "quality a = quality b"
    and "isReady a = isReady b"
proof -
  have "files (jobOf a) = files (jobOf b)" "targetFormat (jobOf a) = targetFormat (jobOf b)"
    "zipOutput (jobOf a) = zipOutput (jobOf b)" "makeAnimation (jobOf a) = makeAnimation (jobOf b)"
    "animationDelay (jobOf a) = animationDelay (jobOf b)" "resizeMode (jobOf a) = resizeMode (jobOf b)"
    "resizePercent (jobOf a) = resizePercent (jobOf b)" "resizeWidth (jobOf a) = resizeWidth (jobOf b)"
    "resizeHeight (jobOf a) = resizeHeight (jobOf b)" "lockRatio (jobOf a) = lockRatio (jobOf b)"
    "rotation (jobOf a) = rotation (jobOf b)" "quality (jobOf a) = quality (jobOf b)"
    "isReady (jobOf a) = isReady (jobOf b)"
    using assms by simp_all
  then show "files a = files b" and "targetFormat a = targetFormat b"
    and "zipOutput a = zipOutput b" and "makeAnimation a = makeAnimation b"
    and "animationDelay a = animationDelay b" and "resizeMode a = resizeMode b"
    and "resizePercent a = resizePercent b" and "resizeWidth a = resizeWidth b"
    and "resizeHeight a = resizeHeight b" and "lockRatio a = lockRatio b"
    and "rotation a = rotation b" and "quality a = quality b"
    and "isReady a = isReady b"
    by (simp_all add: jobOf_def)
qed

lemma applyEdits_jobOf: "applyEdits env (jobOf s) img = applyEdits env s img"
  by (simp add: applyEdits_def jobOf_def Let_def cong: if_cong)

lemma editFrames_jobOf: "editFrames env (jobOf s) imgs = editFrames env s imgs"
  by (induction imgs) (simp_all add: applyEdits_jobOf, simp_all add: jobOf_def cong: if_cong)

lemma processSingleImage_jobOf: "processSingleImage env (jobOf s) f = processSingleImage env s f"
  unfolding processSingleImage_def editFrames_jobOf
  by (simp add: jobOf_def blobType_def cong: if_cong list.case_cong)

lemma mergeFrame_jobOf: "mergeFrame env (jobOf s) f = mergeFrame env s f"
  unfolding mergeFrame_def applyEdits_jobOf
  by (simp add: jobOf_def padsCanvas_def Let_def cong: if_cong)

lemma processSingleImage_cong:
  "jobOf a = jobOf b \<Longrightarrow> processSingleImage env a f = processSingleImage env b f"
  by (metis processSingleImage_jobOf)

lemma mergeFrame_cong:
  "jobOf a = jobOf b \<Longrightarrow> mergeFrame env a f = mergeFrame env b f"
  by (metis mergeFrame_jobOf)

lemma convertLoop_job:
  "jobOf (fst (convertLoop env ext n i items s acc)) = jobOf s"
proof (induction items arbitrary: i s acc)
  case Nil
  show ?case by simp
next
  case (Cons item rest)
  let ?s1 = "s\<lparr>progressLabel := ''Processing '' @ file_name (item_file item) @ ''...''\<rparr>"
  show ?case
  proof (cases "processSingleImage env ?s1 (item_file item)")
    case (Inl msg)
    then show ?thesis by (simp add: Let_def)
  next
    case (Inr b)
    then show ?thesis by (simp add: Let_def Cons.IH)
  qed
qed

lemma mergeLoop_job:
  "jobOf (fst (mergeLoop env i items s acc)) = jobOf s"
proof (induction items arbitrary: i s acc)
  case Nil
  show ?case by simp
next
  case (Cons item rest)
  let ?s1 = "s\<lparr>progressLabel :=
                    ''Adding frame '' @ showNat (i + 1) @ ''/'' @ showNat (length (files s)),
                  progress := of_nat i / of_nat (length (files s)) * 80\<rparr>"
  show ?case
  proof (cases "mergeFrame env ?s1 (item_file item)")
    case (Inl msg)
    then show ?thesis by (simp add: Let_def)
  next
    case (Inr b)
    then show ?thesis by (simp add: Let_def Cons.IH)
  qed
qed

lemma foldl_progress_job:
  "jobOf (foldl (\<lambda>st percent. st\<lparr>progress := g percent\<rparr>) s ps) = jobOf s"
  by (induction ps arbitrary: s) simp_all

lemma processMergeAnimation_job: "jobOf (fst (processMergeAnimation env s)) = jobOf s"
proof -
  obtain s1 r where m: "mergeLoop env 0 (files s) s [] = (s1, r)" by (cases "mergeLoop env 0 (files s) s []")
  have "jobOf s1 = jobOf s" using mergeLoop_job [of env 0 "files s" s "[]"] m by simp
  then show ?thesis by (cases r) (simp_all add: processMergeAnimation_def m)
qed

lemma mergePath_job: "jobOf (fst (mergePath env ext s)) = jobOf s"
proof -
  obtain s1 r where m: "processMergeAnimation env (s\<lparr>progressLabel := ''Merging Animation...''\<rparr>) = (s1, r)"
    by (cases "processMergeAnimation env (s\<lparr>progressLabel := ''Merging Animation...''\<rparr>)")
  have "jobOf s1 = jobOf s"
    using processMergeAnimation_job [of env "s\<lparr>progressLabel := ''Merging Animation...''\<rparr>"] m by simp
  then show ?thesis by (cases r) (simp_all add: mergePath_def m)
qed

lemma perFilePath_job: "jobOf (fst (perFilePath env ext s)) = jobOf s"
proof -
  obtain s1 r where m: "convertLoop env ext (length (files s)) 0 (files s) s [] = (s1, r)"
    by (cases "convertLoop env ext (length (files s)) 0 (files s) s []")
  have "jobOf s1 = jobOf s" using convertLoop_job [of env ext "length (files s)" 0 "files s" s "[]"] m by simp
  then show ?thesis
    by (cases r) (simp_all add: perFilePath_def package_def m Let_def foldl_progress_job split: list.splits)
qed

lemma tryBlock_job: "jobOf (fst (tryBlock env s)) = jobOf s"
  by (simp add: tryBlock_def Let_def mergePath_job perFilePath_job)

lemma convertAndDownload_job: "jobOf (fst (convertAndDownload env s)) = jobOf s"
proof (cases "length (files s) = 0")
  case True
  then show ?thesis by (simp add: convertAndDownload_def)
next
  case False
  let ?s0 = "s\<lparr>processing := True, progress := 0, errorMessage := []\<rparr>"
  obtain s1 r where m: "tryBlock env ?s0 = (s1, r)" by (cases "tryBlock env ?s0")
  have "jobOf s1 = jobOf s" using tryBlock_job [of env ?s0] m by simp
  with False show ?thesis by (cases r) (simp_all add: convertAndDownload_def m)
qed

section \<open>Lemmas: what a successful call returned\<close>



lemma unlessThrown_Inr: "unlessThrown t x = Inr y \<Longrightarrow> t = None \<and> y = x"
  by (cases t) (simp_all add: unlessThrown_def)



lemma andThen_InrE:
  assumes "andThen r k = Inr y"
  obtains x where "r = Inr x" and "k x = Inr y"
  using assms by (cases r) (simp_all add: andThen_def)

lemma unlessThrown_InrE:
  assumes "unlessThrown t x = Inr y"
  obtains "t = None" and "y = x"
  using assms by (cases t) (simp_all add: unlessThrown_def)





lemma mergeFrame_update [simp]:
  "mergeFrame env (s\<lparr>processing := b\<rparr>) f = mergeFrame env s f"
  "mergeFrame env (s\<lparr>progress := p\<rparr>) f = mergeFrame env s f"
  "mergeFrame env (s\<lparr>progressLabel := l\<rparr>) f = mergeFrame env s f"
  "mergeFrame env (s\<lparr>errorMessage := m\<rparr>) f = mergeFrame env s f"
  by (rule mergeFrame_cong, simp)+

lemma processSingleImage_update [simp]:
  "processSingleImage env (s\<lparr>processing := b\<rparr>) f = processSingleImage env s f"
  "processSingleImage env (s\<lparr>progress := p\<rparr>) f = processSingleImage env s f"
  "processSingleImage env (s\<lparr>progressLabel := l\<rparr>) f = processSingleImage env s f"
  "processSingleImage env (s\<lparr>errorMessage := m\<rparr>) f = processSingleImage env s f"
  by (rule processSingleImage_cong, simp)+




lemmas fmt_defs = resolveExtension_def quickFormats_def extraFormats_def toLowerCase_def lowerChar_def







lemmas run_eval =
  convertAndDownload_def tryBlock_def mergePath_def perFilePath_def package_def processMergeAnimation_def
  canMergeAnimation_def mergeFrame_def padsCanvas_def blobType_def
  processSingleImage_def isMultiFrameFormat_def
  applyEdits_def andThen_def invoke_def unlessThrown_def quietEnv_def
  createImage_def initialState_def mkItem_def mkFile_def Let_def

lemma convertLoop_Inr:
  "convertLoop env ext n i items s acc = (s', Inr out) \<Longrightarrow>
     \<exists>new. out = acc @ new
        \<and> list_all2 (\<lambda>it f. fst f = stripExtension (file_name (item_file it)) @ ''.'' @ ext
                            \<and> processSingleImage env s (item_file it) = Inr (snd f))
             items new"
proof (induction items arbitrary: i s acc)
  case Nil
  then show ?case by simp
next
  case (Cons item rest)
  let ?s1 = "s\<lparr>progressLabel := ''Processing '' @ file_name (item_file item) @ ''...''\<rparr>"
  let ?s2 = "?s1\<lparr>progress := of_nat (i + 1) / of_nat n * 90\<rparr>"
  show ?case
  proof (cases "processSingleImage env s (item_file item)")
    case (Inl msg)
    with Cons.prems show ?thesis by (simp add: Let_def)
  next
    case (Inr b)
    let ?f = "(stripExtension (file_name (item_file item)) @ ''.'' @ ext, b)"
    from Inr Cons.prems have "convertLoop env ext n (Suc i) rest ?s2 (acc @ [?f]) = (s', Inr out)"
      by (simp add: Let_def)
    from Cons.IH [OF this] obtain new where n: "out = (acc @ [?f]) @ new"
      and l: "list_all2 (\<lambda>it f. fst f = stripExtension (file_name (item_file it)) @ ''.'' @ ext
                            \<and> processSingleImage env ?s2 (item_file it) = Inr (snd f))
             rest new"
      by blast
    from l have "list_all2 (\<lambda>it f. fst f = stripExtension (file_name (item_file it)) @ ''.'' @ ext
                            \<and> processSingleImage env s (item_file it) = Inr (snd f))
             rest new" by simp
    with Inr have "list_all2 (\<lambda>it f. fst f = stripExtension (file_name (item_file it)) @ ''.'' @ ext
                            \<and> processSingleImage env s (item_file it) = Inr (snd f))
             (item # rest) (?f # new)" by simp
    with n show ?thesis by (intro exI [of _ "?f # new"]) simp
  qed
qed

lemma convertLoop_Inl:
  "convertLoop env ext n i items s acc = (s', Inl msg) \<Longrightarrow>
     \<exists>pre bad post. items = pre @ bad # post
        \<and> list_all (\<lambda>p. \<not> isl (processSingleImage env s (item_file p))) pre
        \<and> processSingleImage env s (item_file bad) = Inl msg"
proof (induction items arbitrary: i s acc)
  case Nil
  then show ?case by simp
next
  case (Cons item rest)
  let ?s1 = "s\<lparr>progressLabel := ''Processing '' @ file_name (item_file item) @ ''...''\<rparr>"
  let ?s2 = "?s1\<lparr>progress := of_nat (i + 1) / of_nat n * 90\<rparr>"
  show ?case
  proof (cases "processSingleImage env s (item_file item)")
    case (Inl m)
    with Cons.prems have "m = msg" by (simp add: Let_def)
    with Inl have "item # rest = [] @ item # rest
        \<and> list_all (\<lambda>p. \<not> isl (processSingleImage env s (item_file p))) []
        \<and> processSingleImage env s (item_file item) = Inl msg" by simp
    then show ?thesis by blast
  next
    case (Inr b)
    let ?f = "(stripExtension (file_name (item_file item)) @ ''.'' @ ext, b)"
    from Inr Cons.prems have "convertLoop env ext n (Suc i) rest ?s2 (acc @ [?f]) = (s', Inl msg)"
      by (simp add: Let_def)
    from Cons.IH [OF this] obtain pre bad post where r: "rest = pre @ bad # post"
      and l: "list_all (\<lambda>p. \<not> isl (processSingleImage env ?s2 (item_file p))) pre"
      and b: "processSingleImage env ?s2 (item_file bad) = Inl msg"
      by blast
    from l Inr have "list_all (\<lambda>p. \<not> isl (processSingleImage env s (item_file p))) (item # pre)"
      by simp
    moreover from b have "processSingleImage env s (item_file bad) = Inl msg" by simp
    moreover from r have "item # rest = (item # pre) @ bad # post" by simp
    ultimately show ?thesis by blast
  qed
qed

lemma convertLoop_fails:
  "bad \<in> set items \<Longrightarrow> processSingleImage env s (item_file bad) = Inl e \<Longrightarrow>
     \<exists>msg. snd (convertLoop env ext n i items s acc) = Inl msg"
proof (induction items arbitrary: i s acc)
  case Nil
  then show ?case by simp
next
  case (Cons item rest)
  let ?s1 = "s\<lparr>progressLabel := ''Processing '' @ file_name (item_file item) @ ''...''\<rparr>"
  let ?s2 = "?s1\<lparr>progress := of_nat (i + 1) / of_nat n * 90\<rparr>"
  show ?case
  proof (cases "processSingleImage env s (item_file item)")
    case (Inl m)
    then show ?thesis by (simp add: Let_def)
  next
    case (Inr b)
    with Cons.prems have "bad \<in> set rest" by auto
    moreover from Cons.prems have "processSingleImage env ?s2 (item_file bad) = Inl e" by simp
    ultimately have "\<exists>msg. snd (convertLoop env ext n (Suc i) rest ?s2
         (acc @ [(stripExtension (file_name (item_file item)) @ ''.'' @ ext, b)])) = Inl msg"
      by (rule Cons.IH)
    with Inr show ?thesis by (simp add: Let_def)
  qed
qed

lemma processSingleImage_not_zip:
  assumes "processSingleImage env s f = Inr b"
  shows "b \<noteq> ZipArchive es"
  using assms unfolding processSingleImage_def
  apply (elim andThen_InrE unlessThrown_InrE)
  apply (auto split: if_splits list.splits elim!: andThen_InrE unlessThrown_InrE)
  done

lemma catchMessage_nonempty: "catchMessage msg \<noteq> []"
  by (simp add: catchMessage_def)

lemma str_includes_iff: "str_includes s p \<longleftrightarrow> (\<exists>a b. s = a @ p @ b)"
proof (induction s)
  case Nil
  then show ?case by simp
next
  case (Cons c cs)
  have "startsWith (c # cs) p \<longleftrightarrow> (\<exists>b. c # cs = p @ b)"
    unfolding startsWith_def by (metis append_eq_conv_conj)
  moreover have "(\<exists>a b. c # cs = a @ p @ b) \<longleftrightarrow> (\<exists>b. c # cs = p @ b) \<or> (\<exists>a b. cs = a @ p @ b)"
  proof
    assume "\<exists>a b. c # cs = a @ p @ b"
    then obtain a b where ab: "c # cs = a @ p @ b" by blast
    show "(\<exists>b. c # cs = p @ b) \<or> (\<exists>a b. cs = a @ p @ b)"
    proof (cases a)
      case Nil
      with ab show ?thesis by auto
    next
      case (Cons x xs)
      with ab have "cs = xs @ p @ b" by simp
      then show ?thesis by blast
    qed
  next
    assume "(\<exists>b. c # cs = p @ b) \<or> (\<exists>a b. cs = a @ p @ b)"
    then show "\<exists>a b. c # cs = a @ p @ b"
    proof
      assume "\<exists>b. c # cs = p @ b"
      then obtain b where "c # cs = [] @ p @ b" by auto
      then show ?thesis by blast
    next
      assume "\<exists>a b. cs = a @ p @ b"
      then obtain a b where "c # cs = (c # a) @ p @ b" by auto
      then show ?thesis by blast
    qed
  qed
  ultimately show ?case using Cons.IH by simp
qed

lemma perFile_run:
  assumes "\<not> (makeAnimation s \<and> canMergeAnimation s)" and "length (files s) \<noteq> 0"
  shows "convertAndDownload env s =
     (case perFilePath env (resolveExtension (targetFormat s))
             (s\<lparr>processing := True, progress := 0, errorMessage := []\<rparr>) of
        (s1, Inr download) \<Rightarrow> (s1, [download])
      | (s1, Inl msg) \<Rightarrow> (s1\<lparr>errorMessage := catchMessage msg\<rparr>, []))"
proof -
  have "canMergeAnimation (s\<lparr>processing := True, progress := 0, errorMessage := []\<rparr>)
          = canMergeAnimation s" by (simp add: canMergeAnimation_def)
  with assms show ?thesis by (auto simp: convertAndDownload_def tryBlock_def Let_def)
qed

lemmas state_eval =
  perFileState_def singleState_def gifMergeState_def threeFiles_def failingEnv_def
  catchMessage_def startsWith_def stripExtension_def

section \<open>Lemmas: the events and the edit panel\<close>

lemma runEvents_append:
  "runEvents env (xs @ ys) s = runEvents env ys (runEvents env xs s)"
  by (induction xs arbitrary: s) simp_all

lemma afterChange_edit:
  "resizeMode (afterChange old s) = resizeMode s"
  "resizeWidth (afterChange old s) = resizeWidth s"
  "resizeHeight (afterChange old s) = resizeHeight s"
  "lockRatio (afterChange old s) =
     (if (resizeWidth s \<noteq> resizeWidth old \<or> resizeHeight s \<noteq> resizeHeight old)
         \<and> truthy (resizeWidth s) \<and> truthy (resizeHeight s) \<and> resizeMode s = ModePixels
      then False else lockRatio s)"
  by (auto simp: afterChange_def watchTargetFormat_def watchFilesLength_def
        watchResizeDims_def Let_def)

lemma convertAndDownload_edit:
  "resizeMode (fst (convertAndDownload env s)) = resizeMode s"
  "resizeWidth (fst (convertAndDownload env s)) = resizeWidth s"
  "resizeHeight (fst (convertAndDownload env s)) = resizeHeight s"
  "lockRatio (fst (convertAndDownload env s)) = lockRatio s"
  using convertAndDownload_job [of env s] by (rule jobOf_eqD)+

lemma addFiles_edit:
  "resizeMode (addFiles env fs s) = resizeMode s"
  "resizeWidth (addFiles env fs s) = resizeWidth s"
  "resizeHeight (addFiles env fs s) = resizeHeight s"
  "lockRatio (addFiles env fs s) = lockRatio s"
  by (simp_all add: addFiles_def Let_def)

lemma step_lockedBox:
  assumes "lockedBox (step env e s)"
  shows "lockedBox s
     \<or> (e = ToggleLockRatio \<and> truthy (resizeWidth s) \<and> truthy (resizeHeight s)
          \<and> resizeMode s = ModePixels \<and> \<not> lockRatio s)"
proof (cases "enabled e s")
  case False
  with assms show ?thesis by (simp add: step_def)
next
  case True
  with assms have a: "lockedBox (afterChange s (handler env e s))" by (simp add: step_def)
  show ?thesis
  proof (cases e)
    case ToggleLockRatio
    with a True show ?thesis by (auto simp: lockedBox_def afterChange_edit)
  next
    case (SetResizeWidth v)
    with a True show ?thesis by (auto simp: lockedBox_def afterChange_edit split: if_splits)
  next
    case (SetResizeHeight v)
    with a True show ?thesis by (auto simp: lockedBox_def afterChange_edit split: if_splits)
  next
    case ClickConvert
    with a show ?thesis
      by (simp add: lockedBox_def afterChange_edit convertAndDownload_edit)
  next
    case (ChooseFiles fs)
    with a show ?thesis by (simp add: lockedBox_def afterChange_edit addFiles_edit)
  next
    case (DropFiles fs)
    with a show ?thesis by (simp add: lockedBox_def afterChange_edit addFiles_edit)
  qed (use a in \<open>simp_all add: lockedBox_def afterChange_edit removeFile_def finallyTimeout_def
          selectFormat_def\<close>)
qed

lemma lockedBox_trace:
  "lockedBox (runEvents env evs initialState) \<Longrightarrow>
     \<exists>pre post. evs = pre @ ToggleLockRatio # post
        \<and> truthy (resizeWidth (runEvents env pre initialState))
        \<and> truthy (resizeHeight (runEvents env pre initialState))
        \<and> resizeMode (runEvents env pre initialState) = ModePixels
        \<and> \<not> lockRatio (runEvents env pre initialState)"
proof (induction evs rule: rev_induct)
  case Nil
  then show ?case by (simp add: lockedBox_def initialState_def)
next
  case (snoc e evs)
  let ?s = "runEvents env evs initialState"
  from snoc.prems have "lockedBox (step env e ?s)" by (simp add: runEvents_append)
  from step_lockedBox [OF this] show ?case
  proof
    assume "lockedBox ?s"
    from snoc.IH [OF this] obtain pre post where "evs = pre @ ToggleLockRatio # post"
      and p: "truthy (resizeWidth (runEvents env pre initialState))
        \<and> truthy (resizeHeight (runEvents env pre initialState))
        \<and> resizeMode (runEvents env pre initialState) = ModePixels
        \<and> \<not> lockRatio (runEvents env pre initialState)" by blast
    then have "evs @ [e] = pre @ ToggleLockRatio # (post @ [e])" by simp
    with p show ?thesis by blast
  next
    assume "e = ToggleLockRatio \<and> truthy (resizeWidth ?s) \<and> truthy (resizeHeight ?s)
          \<and> resizeMode ?s = ModePixels \<and> \<not> lockRatio ?s"
    then have "evs @ [e] = evs @ ToggleLockRatio # []" and "truthy (resizeWidth ?s)
        \<and> truthy (resizeHeight ?s) \<and> resizeMode ?s = ModePixels \<and> \<not> lockRatio ?s"
      by simp_all
    then show ?thesis by blast
  qed
qed

lemmas event_eval =
  step_def afterChange_def watchTargetFormat_def watchFilesLength_def watchResizeDims_def
  canMergeAnimation_def initialState_def Let_def

section \<open>Lemmas: the earlier revision and the packaging\<close>

lemma inlineEdits_v1_eq: "inlineEdits_v1 env s img = applyEdits env s img"
  by (simp add: inlineEdits_v1_def applyEdits_def)

lemma processSingleImage_v1_jobOf:
  "processSingleImage_v1 env (jobOf s) f = processSingleImage_v1 env s f"
  unfolding processSingleImage_v1_def inlineEdits_v1_eq applyEdits_jobOf
  by (simp add: jobOf_def blobType_def Let_def cong: if_cong)

lemma processSingleImage_v1_update [simp]:
  "processSingleImage_v1 env (s\<lparr>processing := b\<rparr>) f = processSingleImage_v1 env s f"
  "processSingleImage_v1 env (s\<lparr>progress := p\<rparr>) f = processSingleImage_v1 env s f"
  "processSingleImage_v1 env (s\<lparr>progressLabel := l\<rparr>) f = processSingleImage_v1 env s f"
  "processSingleImage_v1 env (s\<lparr>errorMessage := m\<rparr>) f = processSingleImage_v1 env s f"
proof -
  have c: "\<And>a b. jobOf a = jobOf b \<Longrightarrow>
             processSingleImage_v1 env a f = processSingleImage_v1 env b f"
    by (metis processSingleImage_v1_jobOf)
  show "processSingleImage_v1 env (s\<lparr>processing := b\<rparr>) f = processSingleImage_v1 env s f"
    by (rule c) simp
  show "processSingleImage_v1 env (s\<lparr>progress := p\<rparr>) f = processSingleImage_v1 env s f"
    by (rule c) simp
  show "processSingleImage_v1 env (s\<lparr>progressLabel := l\<rparr>) f = processSingleImage_v1 env s f"
    by (rule c) simp
  show "processSingleImage_v1 env (s\<lparr>errorMessage := m\<rparr>) f = processSingleImage_v1 env s f"
    by (rule c) simp
qed

lemma convertLoop_v1_job:
  "jobOf (fst (convertLoop_v1 env ext n i items s acc)) = jobOf s"
proof (induction items arbitrary: i s acc)
  case Nil
  show ?case by simp
next
  case (Cons item rest)
  show ?case
    by (cases "processSingleImage_v1 env s (item_file item)") (simp_all add: Let_def Cons.IH)
qed

lemma convertLoop_v1_Inr:
  "convertLoop_v1 env ext n i items s acc = (s', Inr out) \<Longrightarrow>
     \<exists>new. out = acc @ new
        \<and> list_all2 (\<lambda>it f. fst f = stripExtension (file_name (item_file it)) @ ''.'' @ ext
                            \<and> processSingleImage_v1 env s (item_file it) = Inr (snd f))
             items new"
proof (induction items arbitrary: i s acc)
  case Nil
  then show ?case by simp
next
  case (Cons item rest)
  let ?s1 = "s\<lparr>progressLabel := ''Converting '' @ file_name (item_file item) @ ''...''\<rparr>"
  let ?s2 = "?s1\<lparr>progress := of_nat (i + 1) / of_nat n * 90\<rparr>"
  show ?case
  proof (cases "processSingleImage_v1 env s (item_file item)")
    case (Inl msg)
    with Cons.prems show ?thesis by (simp add: Let_def)
  next
    case (Inr b)
    let ?f = "(stripExtension (file_name (item_file item)) @ ''.'' @ ext, b)"
    from Inr Cons.prems have "convertLoop_v1 env ext n (Suc i) rest ?s2 (acc @ [?f]) = (s', Inr out)"
      by (simp add: Let_def)
    from Cons.IH [OF this] obtain new where n: "out = (acc @ [?f]) @ new"
      and l: "list_all2 (\<lambda>it f. fst f = stripExtension (file_name (item_file it)) @ ''.'' @ ext
                            \<and> processSingleImage_v1 env ?s2 (item_file it) = Inr (snd f))
             rest new"
      by blast
    from l have "list_all2 (\<lambda>it f. fst f = stripExtension (file_name (item_file it)) @ ''.'' @ ext
                            \<and> processSingleImage_v1 env s (item_file it) = Inr (snd f))
             rest new" by simp
    with Inr have "list_all2 (\<lambda>it f. fst f = stripExtension (file_name (item_file it)) @ ''.'' @ ext
                            \<and> processSingleImage_v1 env s (item_file it) = Inr (snd f))
             (item # rest) (?f # new)" by simp
    with n show ?thesis by (intro exI [of _ "?f # new"]) simp
  qed
qed

lemma processSingleImage_v1_not_zip:
  assumes "processSingleImage_v1 env s f = Inr b"
  shows "b \<noteq> ZipArchive es"
  using assms unfolding processSingleImage_v1_def Let_def
  by (elim andThen_InrE unlessThrown_InrE) auto

lemma packaged_from_loop:
  assumes l: "list_all2 (\<lambda>it f. fst f = stripExtension (file_name (item_file it)) @ ''.'' @ ext
                            \<and> convert (item_file it) = Inr (snd f)) (files s) outs"
    and z: "zipOutput s1 = zipOutput s" and ne: "length (files s) \<noteq> 0"
    and p: "snd (package env s1 (length (files s)) outs) = Inr (blob, fname)"
    and nz: "\<And>f b es. convert f = Inr b \<Longrightarrow> b \<noteq> ZipArchive es"
  shows "packaged ext convert s blob fname"
proof (cases "zipOutput s \<or> 1 < length (files s)")
  case True
  let ?entries = "foldl (\<lambda>z f. zipFile z (fst f) (snd f)) [] outs"
  from True z p have "unlessThrown (snd (generateAsync env ?entries))
                    (ZipArchive ?entries, ''converted_images.zip'') = Inr (blob, fname)"
    by (auto simp: package_def Let_def)
  then have "blob = ZipArchive ?entries \<and> fname = ''converted_images.zip''"
    by (elim unlessThrown_InrE) simp
  with True l show ?thesis unfolding packaged_def by blast
next
  case False
  with ne have one: "length (files s) = 1" by (cases "files s") auto
  with l obtain it f where fs: "files s = [it]" and o: "outs = [f]"
    by (cases "files s"; cases outs) auto
  from l fs o have n: "fst f = stripExtension (file_name (item_file it)) @ ''.'' @ ext"
    and pb: "convert (item_file it) = Inr (snd f)" by simp_all
  from False z o p have "blob = snd f" and "fname = fst f" by (simp_all add: package_def)
  with n pb fs False nz [OF pb] show ?thesis unfolding packaged_def by auto
qed

lemma v1_run:
  assumes "length (files s) \<noteq> 0"
  shows "convertAndDownload_v1 env s =
     (case tryBlock_v1 env (s\<lparr>processing := True, progress := 0, errorMessage := []\<rparr>) of
        (s1, Inr download) \<Rightarrow> (s1, [download])
      | (s1, Inl msg) \<Rightarrow> (s1\<lparr>errorMessage := ''Conversion failed. '' @ msg\<rparr>, []))"
  unfolding convertAndDownload_v1_def using assms by (simp only: if_False)

lemmas v1_eval =
  convertAndDownload_v1_def tryBlock_v1_def processSingleImage_v1_def inlineEdits_v1_def

section \<open>Lemmas: the steps of the pipelines and the reading of a field\<close>






lemma parseInt_exponent_notation: "parseInt quietEnv (Some (10 ^ 21)) = 1"
  by code_simp

section \<open>The choice of the path\<close>

text \<open>
  C1. A run is an execution of the body of the \<^verbatim>\<open>try\<close> (with no file
  \<^verbatim>\<open>convertAndDownload\<close> returns before it). Every run takes the animation-merge
  branch if the merge flag is on, the target format is GIF or WebP and there are at
  least two files, and the per-file branch in every other case.
\<close>

theorem path_choice:
  "tryBlock env s =
     (if makeAnimation s \<and> targetFormat s \<in> {Gif, WebP} \<and> 2 \<le> length (files s)
      then mergePath env (resolveExtension (targetFormat s)) s
      else perFilePath env (resolveExtension (targetFormat s)) s)"
  by (auto simp: tryBlock_def canMergeAnimation_def)

section \<open>The extension of a format\<close>

text \<open>
  C6. The extension is \<open>jpg\<close> for JPEG, the lower-case key of the catalog for every
  other format of the catalog (the two tables together), and \<open>dat\<close> for a format
  that is in neither table. (Lines 122-132 of \<^verbatim>\<open>src/src/App.vue\<close> are the same
  statements over the same two tables.)
\<close>

theorem resolveExtension_catalog:
  "resolveExtension Jpeg = ''jpg''
   \<and> (\<forall>k g. (k, g) \<in> set (quickFormats @ extraFormats) \<and> g \<noteq> Jpeg
          \<longrightarrow> resolveExtension g = toLowerCase k)
   \<and> (f \<notin> set (map snd (quickFormats @ extraFormats)) \<longrightarrow> resolveExtension f = ''dat'')"
proof (intro conjI allI impI)
  show "resolveExtension Jpeg = ''jpg''" by (simp add: fmt_defs)
next
  fix k g assume "(k, g) \<in> set (quickFormats @ extraFormats) \<and> g \<noteq> Jpeg"
  then show "resolveExtension g = toLowerCase k"
    by (auto simp: fmt_defs)
next
  assume "f \<notin> set (map snd (quickFormats @ extraFormats))"
  then have "findKey quickFormats f = None" "findKey extraFormats f = None"
    by (auto simp: quickFormats_def extraFormats_def)
  then show "resolveExtension f = ''dat''" by (simp add: resolveExtension_def)
qed

theorem resolveExtension_catalog_witness:
  "(''WEBP'', WebP) \<in> set (quickFormats @ extraFormats) \<and> WebP \<noteq> Jpeg
   \<and> resolveExtension WebP = ''webp''
   \<and> OtherFormat ''Heic'' \<notin> set (map snd (quickFormats @ extraFormats))
   \<and> resolveExtension (OtherFormat ''Heic'') = ''dat''
   \<and> resolveExtension Jpeg = ''jpg''"
proof -
  have a: "(''WEBP'', WebP) \<in> set (quickFormats @ extraFormats) \<and> WebP \<noteq> Jpeg"
    by (simp add: quickFormats_def)
  have b: "OtherFormat ''Heic'' \<notin> set (map snd (quickFormats @ extraFormats))"
    by (simp add: quickFormats_def extraFormats_def)
  from resolveExtension_catalog [of "OtherFormat ''Heic''"] a b
  have "resolveExtension WebP = toLowerCase ''WEBP''"
    and "resolveExtension (OtherFormat ''Heic'') = ''dat''"
    and "resolveExtension Jpeg = ''jpg''"
    by blast+
  with a b show ?thesis by (simp add: toLowerCase_def lowerChar_def)
qed

section \<open>The edits of a frame\<close>



section \<open>The selection of files\<close>

text \<open>
  C9. \<^verbatim>\<open>addFiles\<close> appends to the files exactly the selected entries whose mime
  type starts with \<open>image/\<close>, in their order, whatever else was selected with them.
  When more than five entries are rejected, the message names the first five rejected
  files and ends with \<open>, and N others.\<close>, N being the number of the remaining ones;
  so with seven entries rejected and one accepted, one file is added and the message
  ends with \<open>, and 2 others.\<close>
\<close>

theorem addFiles_partition:
  "files (addFiles env fileList s) =
     files s @ map (\<lambda>f. \<lparr>item_file = f, item_id = randomId env f,
                         item_preview = createObjectURL env f, renderError = False\<rparr>)
                (filter (\<lambda>f. startsWith (file_type f) ''image/'') fileList)
   \<and> (5 < length (filter (\<lambda>f. \<not> startsWith (file_type f) ''image/'') fileList) \<longrightarrow>
        errorMessage (addFiles env fileList s) =
          ''Skipped unsupported files: ''
          @ join '', '' (take 5 (map file_name
               (filter (\<lambda>f. \<not> startsWith (file_type f) ''image/'') fileList)))
          @ '', and ''
          @ showNat (length (filter (\<lambda>f. \<not> startsWith (file_type f) ''image/'') fileList) - 5)
          @ '' others.'')
   \<and> (length (filter (\<lambda>f. \<not> startsWith (file_type f) ''image/'') fileList) = 7
        \<and> length (filter (\<lambda>f. startsWith (file_type f) ''image/'') fileList) = 1 \<longrightarrow>
        length (files (addFiles env fileList s)) = length (files s) + 1
        \<and> errorMessage (addFiles env fileList s) =
          ''Skipped unsupported files: ''
          @ join '', '' (take 5 (map file_name
               (filter (\<lambda>f. \<not> startsWith (file_type f) ''image/'') fileList)))
          @ '', and 2 others.'')"
proof -
  let ?rej = "filter (\<lambda>f. \<not> startsWith (file_type f) ''image/'') fileList"
  have kept: "files (addFiles env fileList s) =
     files s @ map (\<lambda>f. \<lparr>item_file = f, item_id = randomId env f,
                         item_preview = createObjectURL env f, renderError = False\<rparr>)
                (filter (\<lambda>f. startsWith (file_type f) ''image/'') fileList)"
    by (simp add: addFiles_def Let_def)
  have msg: "errorMessage (addFiles env fileList s) =
          ''Skipped unsupported files: '' @ join '', '' (take 5 (map file_name ?rej))
          @ '', and '' @ showNat (length ?rej - 5) @ '' others.''"
    if "5 < length ?rej"
    using that by (auto simp: addFiles_def Let_def showInt_def nat_diff_distrib')
  have two: "showNat (7 - 5) = ''2''" by (simp add: showNat.simps digitChar_def)
  have seven: "length (files (addFiles env fileList s)) = length (files s) + 1
        \<and> errorMessage (addFiles env fileList s) =
          ''Skipped unsupported files: '' @ join '', '' (take 5 (map file_name ?rej))
          @ '', and 2 others.''"
    if "length ?rej = 7 \<and> length (filter (\<lambda>f. startsWith (file_type f) ''image/'') fileList) = 1"
    using that msg two by (simp add: kept)
  from kept msg seven show ?thesis by blast
qed

theorem addFiles_partition_witness:
  "length (filter (\<lambda>f. \<not> startsWith (file_type f) ''image/'') eightFiles) = 7
   \<and> length (filter (\<lambda>f. startsWith (file_type f) ''image/'') eightFiles) = 1
   \<and> map (\<lambda>i. file_name (item_file i)) (files (addFiles quietEnv eightFiles initialState))
       = [''photo.png'']
   \<and> errorMessage (addFiles quietEnv eightFiles initialState) =
        ''Skipped unsupported files: a.txt, b.pdf, c.doc, d.zip, e.mp4, and 2 others.''"
  using addFiles_partition [of quietEnv eightFiles initialState]
  by (simp add: eightFiles_def mkFile_def startsWith_def initialState_def quietEnv_def
        showNat.simps digitChar_def)

section \<open>The canvas of a merged frame\<close>



section \<open>The frames of a merged animation\<close>




section \<open>A failure in the per-file path\<close>

text \<open>
  C4. In a per-file run, if the conversion of some file raises an error, then
  \<^verbatim>\<open>triggerDownload\<close> is never called (no file, no archive: the outputs of the files
  converted before the failure are dropped with the local list that held them), and the
  message shown is the one message of the first file that failed, which is not empty.
\<close>

theorem per_file_failure_aborts:
  assumes "\<not> (makeAnimation s \<and> canMergeAnimation s)"
    and "bad \<in> set (files s)"
    and "processSingleImage env s (item_file bad) = Inl e"
  shows "snd (convertAndDownload env s) = []
    \<and> (\<exists>pre first post msg. files s = pre @ first # post
          \<and> list_all (\<lambda>p. \<not> isl (processSingleImage env s (item_file p))) pre
          \<and> processSingleImage env s (item_file first) = Inl msg
          \<and> errorMessage (fst (convertAndDownload env s)) = catchMessage msg)
    \<and> errorMessage (fst (convertAndDownload env s)) \<noteq> []"
proof -
  let ?s0 = "s\<lparr>processing := True, progress := 0, errorMessage := []\<rparr>"
  let ?ext = "resolveExtension (targetFormat s)"
  from assms(2) have ne: "length (files s) \<noteq> 0" by auto
  obtain s1 r where c: "convertLoop env ?ext (length (files s)) 0 (files s) ?s0 [] = (s1, r)"
    by (cases "convertLoop env ?ext (length (files s)) 0 (files s) ?s0 []")
  from assms(3) have "processSingleImage env ?s0 (item_file bad) = Inl e" by simp
  from convertLoop_fails [OF assms(2) this, of ?ext "length (files s)" 0 "[]"] c
  obtain msg where r: "r = Inl msg" by auto
  from convertLoop_Inl [OF c [unfolded r]] obtain pre first post where
    d: "files s = pre @ first # post"
    and l: "list_all (\<lambda>p. \<not> isl (processSingleImage env s (item_file p))) pre"
    and f: "processSingleImage env s (item_file first) = Inl msg"
    by auto
  have p: "perFilePath env ?ext ?s0 = (s1, Inl msg)"
    using c r by (simp add: perFilePath_def package_def)
  have run: "convertAndDownload env s = (s1\<lparr>errorMessage := catchMessage msg\<rparr>, [])"
    using perFile_run [OF assms(1) ne, of env] p by simp
  from run d l f show ?thesis by (auto simp: catchMessage_nonempty)
qed

theorem per_file_failure_aborts_witness:
  "\<not> (makeAnimation perFileState \<and> canMergeAnimation perFileState)
   \<and> mkItem ''b.png'' ''image/png'' \<in> set (files perFileState)
   \<and> processSingleImage (failingEnv ''b.png'' ''corrupt image'') perFileState
        (item_file (mkItem ''b.png'' ''image/png'')) = Inl ''corrupt image''
   \<and> snd (convertAndDownload (failingEnv ''b.png'' ''corrupt image'') perFileState) = []
   \<and> errorMessage (fst (convertAndDownload (failingEnv ''b.png'' ''corrupt image'') perFileState))
        = ''Conversion failed. corrupt image''"
proof -
  let ?env = "failingEnv ''b.png'' ''corrupt image''"
  have a: "\<not> (makeAnimation perFileState \<and> canMergeAnimation perFileState)"
    by (simp add: state_eval initialState_def)
  have b: "mkItem ''b.png'' ''image/png'' \<in> set (files perFileState)"
    by (simp add: state_eval initialState_def)
  have c: "processSingleImage ?env perFileState (item_file (mkItem ''b.png'' ''image/png''))
             = Inl ''corrupt image''"
    by (simp add: state_eval run_eval)
  have m: "errorMessage (fst (convertAndDownload ?env perFileState))
             = ''Conversion failed. corrupt image''"
    by (simp add: state_eval run_eval)
  from per_file_failure_aborts [OF a b c] a b c m show ?thesis by blast
qed

section \<open>The packaging of the per-file path\<close>

text \<open>
  C5. A per-file run that delivers its output delivers an archive if and only if the
  zip flag is set or there is more than one file. The archive is named
  \<open>converted_images.zip\<close> and holds the outputs of all files under their derived
  names (original name without its extension, a dot, the extension of the format);
  otherwise the run has one file and delivers its converted blob under its derived name.
  This holds of the per-file branch of \<^verbatim>\<open>convertAndDownload\<close> and of the
  \<^verbatim>\<open>convertAndDownload\<close> of \<^verbatim>\<open>src/src/App.vue\<close>, which has no other branch.
\<close>

theorem per_file_packaging:
  "(\<not> (makeAnimation s \<and> canMergeAnimation s)
      \<and> snd (convertAndDownload env s) = [(blob, fname)]
      \<longrightarrow> packaged (resolveExtension (targetFormat s)) (processSingleImage env s) s blob fname)
   \<and> (snd (convertAndDownload_v1 env s) = [(blob, fname)]
      \<longrightarrow> packaged (resolveExtension (targetFormat s)) (processSingleImage_v1 env s) s blob fname)"
proof (intro conjI impI)
  let ?s0 = "s\<lparr>processing := True, progress := 0, errorMessage := []\<rparr>"
  let ?ext = "resolveExtension (targetFormat s)"
  assume a: "\<not> (makeAnimation s \<and> canMergeAnimation s)
      \<and> snd (convertAndDownload env s) = [(blob, fname)]"
  then have ne: "length (files s) \<noteq> 0" by (auto simp: convertAndDownload_def)
  obtain s1 r where c: "convertLoop env ?ext (length (files s)) 0 (files s) ?s0 [] = (s1, r)"
    by (cases "convertLoop env ?ext (length (files s)) 0 (files s) ?s0 []")
  have "jobOf s1 = jobOf ?s0"
    using convertLoop_job [of env ?ext "length (files s)" 0 "files s" ?s0 "[]"] c by simp
  then have "jobOf s1 = jobOf s" by simp
  then have z: "zipOutput s1 = zipOutput s" by (rule jobOf_eqD)
  from a have run: "convertAndDownload env s =
     (case perFilePath env ?ext ?s0 of
        (s1, Inr download) \<Rightarrow> (s1, [download])
      | (s1, Inl msg) \<Rightarrow> (s1\<lparr>errorMessage := catchMessage msg\<rparr>, []))"
    using perFile_run [OF _ ne, of env] by blast
  show "packaged ?ext (processSingleImage env s) s blob fname"
  proof (cases r)
    case (Inl msg)
    with c have "perFilePath env ?ext ?s0 = (s1, Inl msg)" by (simp add: perFilePath_def)
    with run a show ?thesis by simp
  next
    case (Inr outs)
    from convertLoop_Inr [OF c [unfolded Inr]]
    have l: "list_all2 (\<lambda>it f. fst f = stripExtension (file_name (item_file it)) @ ''.'' @ ?ext
                            \<and> processSingleImage env s (item_file it) = Inr (snd f))
             (files s) outs" by simp
    from c Inr have "perFilePath env ?ext ?s0 = package env s1 (length (files s)) outs"
      by (simp add: perFilePath_def)
    with run a have p: "snd (package env s1 (length (files s)) outs) = Inr (blob, fname)"
      by (cases "package env s1 (length (files s)) outs") (auto split: sum.splits)
    show ?thesis
      by (rule packaged_from_loop [OF l z ne p]) (rule processSingleImage_not_zip)
  qed
next
  let ?s0 = "s\<lparr>processing := True, progress := 0, errorMessage := []\<rparr>"
  let ?ext = "resolveExtension (targetFormat s)"
  assume a: "snd (convertAndDownload_v1 env s) = [(blob, fname)]"
  then have ne: "length (files s) \<noteq> 0" by (auto simp: convertAndDownload_v1_def)
  obtain s1 r where c: "convertLoop_v1 env ?ext (length (files s)) 0 (files s) ?s0 [] = (s1, r)"
    by (cases "convertLoop_v1 env ?ext (length (files s)) 0 (files s) ?s0 []")
  have "jobOf s1 = jobOf ?s0"
    using convertLoop_v1_job [of env ?ext "length (files s)" 0 "files s" ?s0 "[]"] c by simp
  then have "jobOf s1 = jobOf s" by simp
  then have z: "zipOutput s1 = zipOutput s" by (rule jobOf_eqD)
  note run = v1_run [OF ne, of env]
  show "packaged ?ext (processSingleImage_v1 env s) s blob fname"
  proof (cases r)
    case (Inl msg)
    with c have "tryBlock_v1 env ?s0 = (s1, Inl msg)" by (simp add: tryBlock_v1_def)
    with run a show ?thesis by simp
  next
    case (Inr outs)
    from convertLoop_v1_Inr [OF c [unfolded Inr]]
    have l: "list_all2 (\<lambda>it f. fst f = stripExtension (file_name (item_file it)) @ ''.'' @ ?ext
                            \<and> processSingleImage_v1 env s (item_file it) = Inr (snd f))
             (files s) outs" by simp
    from c Inr have "tryBlock_v1 env ?s0 = package env s1 (length (files s)) outs"
      by (simp add: tryBlock_v1_def)
    with run a have p: "snd (package env s1 (length (files s)) outs) = Inr (blob, fname)"
      by (cases "package env s1 (length (files s)) outs") (auto split: sum.splits)
    show ?thesis
      by (rule packaged_from_loop [OF l z ne p]) (rule processSingleImage_v1_not_zip)
  qed
qed

theorem per_file_packaging_witness:
  "\<not> (makeAnimation perFileState \<and> canMergeAnimation perFileState)
   \<and> (\<exists>entries. snd (convertAndDownload quietEnv perFileState)
         = [(ZipArchive entries, ''converted_images.zip'')]
         \<and> map fst entries = [''a.png'', ''b.png'', ''c.png''])
   \<and> (zipOutput perFileState \<or> 1 < length (files perFileState))
   \<and> \<not> (zipOutput singleState \<or> 1 < length (files singleState))
   \<and> (\<exists>img t. snd (convertAndDownload_v1 quietEnv singleState)
         = [(EncodedImage Jpeg img t, ''photo.old.jpg'')]
         \<and> processSingleImage_v1 quietEnv singleState (mkFile ''photo.old.png'' ''image/png'')
             = Inr (EncodedImage Jpeg img t))"
proof -
  have a: "\<not> (makeAnimation perFileState \<and> canMergeAnimation perFileState)"
    by (simp add: state_eval initialState_def)
  obtain entries where d: "snd (convertAndDownload quietEnv perFileState)
         = [(ZipArchive entries, ''converted_images.zip'')]"
    and n: "map fst entries = [''a.png'', ''b.png'', ''c.png'']"
    by (simp add: state_eval run_eval fmt_defs)
  note per_file_packaging [of perFileState quietEnv "ZipArchive entries" "''converted_images.zip''",
           THEN conjunct1, THEN mp, OF conjI, OF a d]
  then have "(\<exists>es. ZipArchive entries = ZipArchive es)
        = (zipOutput perFileState \<or> 1 < length (files perFileState))"
    unfolding packaged_def by (rule conjunct1)
  then have c: "zipOutput perFileState \<or> 1 < length (files perFileState)"
    by simp
  have z: "\<not> (zipOutput singleState \<or> 1 < length (files singleState))"
    by (simp add: state_eval initialState_def)
  obtain img t where d': "snd (convertAndDownload_v1 quietEnv singleState)
         = [(EncodedImage Jpeg img t, ''photo.old.jpg'')]"
    by (simp add: state_eval run_eval v1_eval fmt_defs)
  note per_file_packaging [of singleState quietEnv "EncodedImage Jpeg img t" "''photo.old.jpg''",
           THEN conjunct2, THEN mp, OF d', unfolded packaged_def,
           THEN conjunct2, THEN conjunct2, THEN mp, OF z]
  then obtain it where f: "files singleState = [it]"
    and q: "processSingleImage_v1 quietEnv singleState (item_file it)
              = Inr (EncodedImage Jpeg img t)"
    by (elim exE conjE)
  from f have "item_file it = mkFile ''photo.old.png'' ''image/png''"
    by (auto simp: singleState_def mkItem_def)
  with q have p: "processSingleImage_v1 quietEnv singleState (mkFile ''photo.old.png'' ''image/png'')
             = Inr (EncodedImage Jpeg img t)"
    by simp
  have A: "\<exists>entries. snd (convertAndDownload quietEnv perFileState)
         = [(ZipArchive entries, ''converted_images.zip'')]
         \<and> map fst entries = [''a.png'', ''b.png'', ''c.png'']"
    by (rule exI [of _ entries], rule conjI [OF d n])
  have B: "\<exists>img t. snd (convertAndDownload_v1 quietEnv singleState)
         = [(EncodedImage Jpeg img t, ''photo.old.jpg'')]
         \<and> processSingleImage_v1 quietEnv singleState (mkFile ''photo.old.png'' ''image/png'')
             = Inr (EncodedImage Jpeg img t)"
    by (rule exI [of _ img], rule exI [of _ t], rule conjI [OF d' p])
  show ?thesis
    by (rule conjI [OF a conjI [OF A conjI [OF c conjI [OF z B]]]])
qed

section \<open>The message of a failed run\<close>

text \<open>
  C8. When the body of the \<^verbatim>\<open>try\<close> throws an error, nothing is delivered and the
  message shown depends on the text of the error alone: if it contains
  \<open>FailedToExecuteCommand\<close> or \<open>ffmpeg\<close> (a missing external codec), the advice to
  use GIF or WebP; otherwise, if it contains \<open>ImagesAreNotTheSameSize\<close> (frames of
  different sizes at encoding), the hint about the resize width and height under a locked
  ratio; otherwise the text of the error itself, unchanged, after the words
  \<open>Conversion failed.\<close>
\<close>

theorem failure_message_by_signature:
  assumes "length (files s) \<noteq> 0"
    and "snd (tryBlock env (s\<lparr>processing := True, progress := 0, errorMessage := []\<rparr>)) = Inl msg"
  shows "snd (convertAndDownload env s) = []
    \<and> ((\<exists>a b. msg = a @ ''FailedToExecuteCommand'' @ b) \<or> (\<exists>a b. msg = a @ ''ffmpeg'' @ b)
         \<longrightarrow> errorMessage (fst (convertAndDownload env s)) =
               ''This format requires external libraries (ffmpeg) not available. Please use GIF or WebP.'')
    \<and> (\<not> (\<exists>a b. msg = a @ ''FailedToExecuteCommand'' @ b) \<and> \<not> (\<exists>a b. msg = a @ ''ffmpeg'' @ b)
         \<and> (\<exists>a b. msg = a @ ''ImagesAreNotTheSameSize'' @ b)
         \<longrightarrow> errorMessage (fst (convertAndDownload env s)) =
               ''GIF Error: Frames mismatch. Please ensure 'Resize' width/height are set if locking ratio.'')
    \<and> (\<not> (\<exists>a b. msg = a @ ''FailedToExecuteCommand'' @ b) \<and> \<not> (\<exists>a b. msg = a @ ''ffmpeg'' @ b)
         \<and> \<not> (\<exists>a b. msg = a @ ''ImagesAreNotTheSameSize'' @ b)
         \<longrightarrow> errorMessage (fst (convertAndDownload env s)) = ''Conversion failed. '' @ msg)"
proof -
  let ?s0 = "s\<lparr>processing := True, progress := 0, errorMessage := []\<rparr>"
  obtain s1 where t: "tryBlock env ?s0 = (s1, Inl msg)"
    using assms(2) by (cases "tryBlock env ?s0") simp
  with assms(1) have run: "convertAndDownload env s = (s1\<lparr>errorMessage := catchMessage msg\<rparr>, [])"
    by (simp add: convertAndDownload_def)
  have m: "errorMessage (fst (convertAndDownload env s)) = catchMessage msg"
    and d: "snd (convertAndDownload env s) = []"
    by (simp_all add: run)
  show ?thesis unfolding m d catchMessage_def str_includes_iff by simp
qed

theorem failure_message_by_signature_witness:
  "length (files singleState) \<noteq> 0
   \<and> failureOf ''delegate failed: ffmpeg'' = Inl ''delegate failed: ffmpeg''
   \<and> shownFor ''delegate failed: ffmpeg'' =
        ''This format requires external libraries (ffmpeg) not available. Please use GIF or WebP.''
   \<and> failureOf ''ImagesAreNotTheSameSize'' = Inl ''ImagesAreNotTheSameSize''
   \<and> shownFor ''ImagesAreNotTheSameSize'' =
        ''GIF Error: Frames mismatch. Please ensure 'Resize' width/height are set if locking ratio.''
   \<and> failureOf ''corrupt image'' = Inl ''corrupt image''
   \<and> shownFor ''corrupt image'' = ''Conversion failed. corrupt image''"
proof -
  have ne: "length (files singleState) \<noteq> 0" by (simp add: singleState_def)
  have f1: "failureOf ''delegate failed: ffmpeg'' = Inl ''delegate failed: ffmpeg''"
    and f2: "failureOf ''ImagesAreNotTheSameSize'' = Inl ''ImagesAreNotTheSameSize''"
    and f3: "failureOf ''corrupt image'' = Inl ''corrupt image''"
    by (simp_all add: failureOf_def state_eval run_eval)
  have i1: "\<exists>a b. ''delegate failed: ffmpeg'' = a @ ''ffmpeg'' @ b"
    unfolding str_includes_iff [symmetric] by (simp add: startsWith_def)
  have i2: "\<not> (\<exists>a b. ''ImagesAreNotTheSameSize'' = a @ ''FailedToExecuteCommand'' @ b)
      \<and> \<not> (\<exists>a b. ''ImagesAreNotTheSameSize'' = a @ ''ffmpeg'' @ b)
      \<and> (\<exists>a b. ''ImagesAreNotTheSameSize'' = a @ ''ImagesAreNotTheSameSize'' @ b)"
    unfolding str_includes_iff [symmetric] by (simp add: startsWith_def)
  have i3: "\<not> (\<exists>a b. ''corrupt image'' = a @ ''FailedToExecuteCommand'' @ b)
      \<and> \<not> (\<exists>a b. ''corrupt image'' = a @ ''ffmpeg'' @ b)
      \<and> \<not> (\<exists>a b. ''corrupt image'' = a @ ''ImagesAreNotTheSameSize'' @ b)"
    unfolding str_includes_iff [symmetric] by (simp add: startsWith_def)
  note c1 = failure_message_by_signature [OF ne f1 [unfolded failureOf_def], THEN conjunct2, THEN conjunct1, THEN mp,
                OF disjI2, OF i1]
  note c2 = failure_message_by_signature [OF ne f2 [unfolded failureOf_def], THEN conjunct2, THEN conjunct2,
                THEN conjunct1, THEN mp, OF i2]
  note c3 = failure_message_by_signature [OF ne f3 [unfolded failureOf_def], THEN conjunct2, THEN conjunct2,
                THEN conjunct2, THEN mp, OF i3]
  have s1: "shownFor ''delegate failed: ffmpeg'' =
        ''This format requires external libraries (ffmpeg) not available. Please use GIF or WebP.''"
    unfolding shownFor_def by (rule c1)
  have s2: "shownFor ''ImagesAreNotTheSameSize'' =
        ''GIF Error: Frames mismatch. Please ensure 'Resize' width/height are set if locking ratio.''"
    unfolding shownFor_def by (rule c2)
  have s3: "shownFor ''corrupt image'' = ''Conversion failed. corrupt image''"
    unfolding shownFor_def using c3 by simp
  show ?thesis
    by (rule conjI [OF ne conjI [OF f1 conjI [OF s1 conjI [OF f2 conjI [OF s2 conjI [OF f3 s3]]]]]])
qed

section \<open>The lock of the ratio\<close>

text \<open>
  C10. In mode Pixels, an edit of the width or of the height after which both are set
  switches the ratio lock off (the watcher of lines 91-95). Hence, along any sequence
  of events of the page from its initial state, if the state reached has mode Pixels,
  both sides set and the ratio locked, then the user clicked the lock at a moment when
  both sides were set, in mode Pixels, and the lock was off. (The fields of the two
  sides and the lock are rendered in mode Pixels only.)
\<close>

theorem lockRatio_released_by_dimensions:
  "(resizeMode s = ModePixels \<and> v \<noteq> resizeWidth s \<and> truthy v \<and> truthy (resizeHeight s)
      \<longrightarrow> \<not> lockRatio (step env (SetResizeWidth v) s))
   \<and> (resizeMode s = ModePixels \<and> v \<noteq> resizeHeight s \<and> truthy v \<and> truthy (resizeWidth s)
      \<longrightarrow> \<not> lockRatio (step env (SetResizeHeight v) s))
   \<and> (resizeMode (runEvents env evs initialState) = ModePixels
       \<and> truthy (resizeWidth (runEvents env evs initialState))
       \<and> truthy (resizeHeight (runEvents env evs initialState))
       \<and> lockRatio (runEvents env evs initialState)
      \<longrightarrow> (\<exists>pre post. evs = pre @ ToggleLockRatio # post
             \<and> truthy (resizeWidth (runEvents env pre initialState))
             \<and> truthy (resizeHeight (runEvents env pre initialState))
             \<and> resizeMode (runEvents env pre initialState) = ModePixels
             \<and> \<not> lockRatio (runEvents env pre initialState)))"
proof (intro conjI impI)
  assume "resizeMode s = ModePixels \<and> v \<noteq> resizeWidth s \<and> truthy v \<and> truthy (resizeHeight s)"
  then show "\<not> lockRatio (step env (SetResizeWidth v) s)"
    by (simp add: step_def afterChange_edit)
next
  assume "resizeMode s = ModePixels \<and> v \<noteq> resizeHeight s \<and> truthy v \<and> truthy (resizeWidth s)"
  then show "\<not> lockRatio (step env (SetResizeHeight v) s)"
    by (simp add: step_def afterChange_edit)
next
  assume "resizeMode (runEvents env evs initialState) = ModePixels
       \<and> truthy (resizeWidth (runEvents env evs initialState))
       \<and> truthy (resizeHeight (runEvents env evs initialState))
       \<and> lockRatio (runEvents env evs initialState)"
  then have "lockedBox (runEvents env evs initialState)" by (simp add: lockedBox_def)
  then show "\<exists>pre post. evs = pre @ ToggleLockRatio # post
             \<and> truthy (resizeWidth (runEvents env pre initialState))
             \<and> truthy (resizeHeight (runEvents env pre initialState))
             \<and> resizeMode (runEvents env pre initialState) = ModePixels
             \<and> \<not> lockRatio (runEvents env pre initialState)"
    by (rule lockedBox_trace)
qed

theorem lockRatio_released_by_dimensions_witness:
  "resizeMode (initialState\<lparr>resizeMode := ModePixels, resizeHeight := Some 50\<rparr>) = ModePixels
   \<and> Some 100 \<noteq> resizeWidth (initialState\<lparr>resizeMode := ModePixels, resizeHeight := Some 50\<rparr>)
   \<and> truthy (Some 100)
   \<and> truthy (resizeHeight (initialState\<lparr>resizeMode := ModePixels, resizeHeight := Some 50\<rparr>))
   \<and> truthy (resizeWidth (initialState\<lparr>resizeMode := ModePixels, resizeWidth := Some 50\<rparr>))
   \<and> lockRatio (initialState\<lparr>resizeMode := ModePixels, resizeHeight := Some 50\<rparr>)
   \<and> \<not> lockRatio (step quietEnv (SetResizeWidth (Some 100))
                     (initialState\<lparr>resizeMode := ModePixels, resizeHeight := Some 50\<rparr>))
   \<and> \<not> lockRatio (step quietEnv (SetResizeHeight (Some 100))
                     (initialState\<lparr>resizeMode := ModePixels, resizeWidth := Some 50\<rparr>))
   \<and> resizeMode (runEvents quietEnv lockEvents initialState) = ModePixels
   \<and> truthy (resizeWidth (runEvents quietEnv lockEvents initialState))
   \<and> truthy (resizeHeight (runEvents quietEnv lockEvents initialState))
   \<and> lockRatio (runEvents quietEnv lockEvents initialState)
   \<and> \<not> lockRatio (runEvents quietEnv (butlast lockEvents) initialState)
   \<and> (\<exists>pre post. lockEvents = pre @ ToggleLockRatio # post
          \<and> truthy (resizeWidth (runEvents quietEnv pre initialState))
          \<and> truthy (resizeHeight (runEvents quietEnv pre initialState))
          \<and> resizeMode (runEvents quietEnv pre initialState) = ModePixels
          \<and> \<not> lockRatio (runEvents quietEnv pre initialState))"
proof -
  let ?a = "initialState\<lparr>resizeMode := ModePixels, resizeHeight := Some 50\<rparr>"
  let ?b = "initialState\<lparr>resizeMode := ModePixels, resizeWidth := Some 50\<rparr>"
  have ha: "resizeMode ?a = ModePixels \<and> Some 100 \<noteq> resizeWidth ?a \<and> truthy (Some 100)
              \<and> truthy (resizeHeight ?a)"
    and hb: "resizeMode ?b = ModePixels \<and> Some 100 \<noteq> resizeHeight ?b \<and> truthy (Some 100)
              \<and> truthy (resizeWidth ?b)"
    and la: "lockRatio ?a"
    by (simp_all add: initialState_def)
  have r: "resizeMode (runEvents quietEnv lockEvents initialState) = ModePixels
       \<and> truthy (resizeWidth (runEvents quietEnv lockEvents initialState))
       \<and> truthy (resizeHeight (runEvents quietEnv lockEvents initialState))
       \<and> lockRatio (runEvents quietEnv lockEvents initialState)"
    and n: "\<not> lockRatio (runEvents quietEnv (butlast lockEvents) initialState)"
    by (simp_all add: lockEvents_def event_eval)
  from lockRatio_released_by_dimensions [of ?a "Some 100" quietEnv] ha
  have 1: "\<not> lockRatio (step quietEnv (SetResizeWidth (Some 100)) ?a)" by blast
  from lockRatio_released_by_dimensions [of ?b "Some 100" quietEnv] hb
  have 2: "\<not> lockRatio (step quietEnv (SetResizeHeight (Some 100)) ?b)" by blast
  from lockRatio_released_by_dimensions [of _ _ quietEnv lockEvents] r
  have 3: "\<exists>pre post. lockEvents = pre @ ToggleLockRatio # post
          \<and> truthy (resizeWidth (runEvents quietEnv pre initialState))
          \<and> truthy (resizeHeight (runEvents quietEnv pre initialState))
          \<and> resizeMode (runEvents quietEnv pre initialState) = ModePixels
          \<and> \<not> lockRatio (runEvents quietEnv pre initialState)" by blast
  from ha hb la 1 2 r n 3 show ?thesis by blast
qed

end
